theory Spec2Isabelle
  imports Complex_Main "HOL-Library.Multiset"
begin

section \<open>Python values and exceptions\<close>

text \<open>
  The classes of exception the script can meet. \<open>OtherError\<close> stands for every other
  subclass of \<open>Exception\<close> (database driver errors, \<open>OSError\<close>, \<open>RecursionError\<close>, ...).
\<close>

datatype exc_class =
  ValueError | SyntaxError | TypeError | IndexError | FileNotFoundError | OtherError

text \<open>
  \<open>Exception c msg\<close> is an instance of a subclass of \<open>Exception\<close> whose \<open>str\<close> is \<open>msg\<close>.
  \<open>SystemExit\<close> and \<open>KeyboardInterrupt\<close> derive from \<open>BaseException\<close> only, so
  \<open>except Exception\<close> lets them pass. \<open>KeyboardInterrupt\<close> is what an interrupt from the
  keyboard raises inside whatever call is running at that moment.
\<close>

datatype exn = SystemExit nat | KeyboardInterrupt | Exception exc_class string

text \<open>
  The values \<open>ast.literal_eval\<close> can return, as far as the data of this script goes:
  \<open>None\<close>, booleans, integers, floats, strings, lists and tuples. A float is kept as the
  real number it denotes.
\<close>

datatype pyval =
  PNone | PBool bool | PInt int | PFloat real | PStr string
  | PList "pyval list" | PTuple "pyval list"

fun type_name :: "pyval \<Rightarrow> string" where
  "type_name PNone = ''NoneType''"
| "type_name (PBool _) = ''bool''"
| "type_name (PInt _) = ''int''"
| "type_name (PFloat _) = ''float''"
| "type_name (PStr _) = ''str''"
| "type_name (PList _) = ''list''"
| "type_name (PTuple _) = ''tuple''"

definition digit_char :: "nat \<Rightarrow> char" where
  "digit_char d = char_of (of_char CHR ''0'' + d)"

text \<open>\<open>str(n)\<close> for a non-negative integer.\<close>

fun str_nat :: "nat \<Rightarrow> string" where
  "str_nat n = (if n < 10 then [digit_char n] else str_nat (n div 10) @ [digit_char (n mod 10)])"

declare str_nat.simps [simp del]

text \<open>\<open>sep.join(strs)\<close> on a list of strings.\<close>

fun join_strs :: "string \<Rightarrow> string list \<Rightarrow> string" where
  "join_strs sep [] = []"
| "join_strs sep [s] = s"
| "join_strs sep (s # t # ss) = s @ sep @ join_strs sep (t # ss)"

text \<open>
  \<open>str.join\<close> first checks every item: the first item that is not a \<open>str\<close> raises
  \<open>TypeError\<close>, naming its position and type.
\<close>

fun str_items :: "nat \<Rightarrow> pyval list \<Rightarrow> exn + string list" where
  "str_items k [] = Inr []"
| "str_items k (PStr s # vs) =
     (case str_items (Suc k) vs of Inl e \<Rightarrow> Inl e | Inr ss \<Rightarrow> Inr (s # ss))"
| "str_items k (v # vs) =
     Inl (Exception TypeError
       (''sequence item '' @ str_nat k @ '': expected str instance, '' @ type_name v @ '' found''))"

definition str_join :: "string \<Rightarrow> pyval list \<Rightarrow> exn + string" where
  "str_join sep items =
     (case str_items 0 items of Inl e \<Rightarrow> Inl e | Inr ss \<Rightarrow> Inr (join_strs sep ss))"

section \<open>A reader for the literals of the data file\<close>

text \<open>
  \<open>ast.literal_eval\<close> is library code, so the functions of the script take it as a
  parameter \<open>lit\<close>. For the strings the recipe file holds, its result is computed by
  \<open>parse_literal\<close>: a number, a quoted string, or a bracketed list of those, in
  printable ASCII. \<open>parse_literal s = None\<close> says that \<open>s\<close> is outside this fragment,
  not that Python rejects it. Within the fragment:
  \<^item> a number is an optional sign, digits without a superfluous leading zero and,
    for a float, a point and more digits; a float is read only when its decimal
    value is a binary64 number (\<open>m / 10 ^ k\<close> with \<open>k \<le> 1074\<close>, \<open>5 ^ k\<close> dividing \<open>m\<close>
    and the quotient below \<open>2 ^ 53\<close>), so that no rounding takes place;
  \<^item> a string is quoted by \<open>'\<close> or \<open>"\<close> and holds no backslash and no quote of its
    own kind;
  \<^item> a list holds such numbers and strings, separated by commas, with blanks
    allowed around every token and a comma allowed before the closing bracket.
\<close>

definition is_digit :: "char \<Rightarrow> bool" where
  "is_digit c = (c \<in> set ''0123456789'')"

definition digits_val :: "string \<Rightarrow> int" where
  "digits_val ds = foldl (\<lambda>a c. 10 * a + (of_char c - 48)) 0 ds"

definition skip_ws :: "string \<Rightarrow> string" where
  "skip_ws s = dropWhile (\<lambda>c. c = CHR '' '') s"

definition printable :: "char \<Rightarrow> bool" where
  "printable c = (32 \<le> (of_char c :: nat) \<and> (of_char c :: nat) < 127)"

definition parse_unsigned :: "bool \<Rightarrow> string \<Rightarrow> (pyval \<times> string) option" where
  "parse_unsigned neg s =
     (let ip = takeWhile is_digit s; r = dropWhile is_digit s in
      if ip = [] \<or> (ip \<noteq> ''0'' \<and> hd ip = CHR ''0'') \<or> 4300 < length ip then None
      else (case r of
              c # r' \<Rightarrow>
                if c = CHR ''.'' then
                  (let fp = takeWhile is_digit r'; m = digits_val (ip @ fp); k = length fp in
                   if fp = [] \<or> 1074 < k \<or> m mod 5 ^ k \<noteq> 0 \<or> 2 ^ 53 \<le> m div 5 ^ k then None
                   else Some (PFloat ((if neg then - 1 else 1) * of_int m / 10 ^ k),
                              dropWhile is_digit r'))
                else Some (PInt ((if neg then - 1 else 1) * digits_val ip), r)
            | [] \<Rightarrow> Some (PInt ((if neg then - 1 else 1) * digits_val ip), r)))"

definition parse_quoted :: "char \<Rightarrow> string \<Rightarrow> (pyval \<times> string) option" where
  "parse_quoted q s =
     (let body = takeWhile (\<lambda>c. c \<noteq> q) s; r = dropWhile (\<lambda>c. c \<noteq> q) s in
      if r = [] \<or> CHR 0x5C \<in> set body then None else Some (PStr body, tl r))"

definition parse_atom :: "string \<Rightarrow> (pyval \<times> string) option" where
  "parse_atom s =
     (case s of
        [] \<Rightarrow> None
      | c # r \<Rightarrow>
          if c = CHR 0x27 \<or> c = CHR 0x22 then parse_quoted c r
          else if c = CHR ''-'' then parse_unsigned True r
          else if c = CHR ''+'' then parse_unsigned False r
          else parse_unsigned False s)"

definition closes :: "string \<Rightarrow> bool" where
  "closes s = (case s of c # r \<Rightarrow> c = CHR '']'' \<and> skip_ws r = [] | [] \<Rightarrow> False)"

fun parse_items :: "nat \<Rightarrow> string \<Rightarrow> pyval list option" where
  "parse_items 0 s = None"
| "parse_items (Suc n) s =
     (case parse_atom (skip_ws s) of
        None \<Rightarrow> None
      | Some (v, r) \<Rightarrow>
          (case skip_ws r of
             [] \<Rightarrow> None
           | c # r' \<Rightarrow>
               if c = CHR '','' then
                 (if closes (skip_ws r') then Some [v]
                  else map_option (Cons v) (parse_items n r'))
               else if closes (c # r') then Some [v]
               else None))"

definition parse_literal :: "string \<Rightarrow> pyval option" where
  "parse_literal s =
     (if \<not> list_all printable s then None
      else (case skip_ws s of
              [] \<Rightarrow> None
            | c # r \<Rightarrow>
                if c = CHR ''['' then
                  (if closes (skip_ws r) then Some (PList [])
                   else map_option PList (parse_items (length r) r))
                else (case parse_atom (c # r) of
                        None \<Rightarrow> None
                      | Some (v, r') \<Rightarrow> if skip_ws r' = [] then Some v else None)))"

text \<open>A parser \<open>lit\<close> reads the fragment as \<open>parse_literal\<close> does.\<close>

definition reads_literals :: "(string \<Rightarrow> exn + pyval) \<Rightarrow> bool" where
  "reads_literals lit = (\<forall>s v. parse_literal s = Some v \<longrightarrow> lit s = Inr v)"

text \<open>
  The least defined such parser, for running the script on concrete files: it answers
  \<open>SyntaxError\<close> wherever \<open>parse_literal\<close> is undefined.
\<close>

definition fragment_eval :: "string \<Rightarrow> exn + pyval" where
  "fragment_eval s =
     (case parse_literal s of
        Some v \<Rightarrow> Inr v
      | None \<Rightarrow> Inl (Exception SyntaxError ''invalid syntax''))"

section \<open>clean_text\<close>

text \<open>
  \<^verbatim>\<open>
  def clean_text(text_list_str):
      try:
          items = ast.literal_eval(text_list_str)
          return ", ".join(items) if isinstance(items, list) else text_list_str
      except (ValueError, SyntaxError):
          return text_list_str
  \<close>
  \<open>ast.literal_eval\<close> is library code: the function takes it as \<open>lit\<close>. Both the parse
  and the join are inside the \<open>try\<close>; the handler catches \<open>ValueError\<close> and
  \<open>SyntaxError\<close> only.
\<close>

fun caught_by_clean_text :: "exn \<Rightarrow> bool" where
  "caught_by_clean_text (Exception ValueError _) = True"
| "caught_by_clean_text (Exception SyntaxError _) = True"
| "caught_by_clean_text _ = False"

definition clean_text :: "(string \<Rightarrow> exn + pyval) \<Rightarrow> string \<Rightarrow> exn + string" where
  "clean_text lit text_list_str =
     (case (case lit text_list_str of
              Inl e \<Rightarrow> Inl e
            | Inr items \<Rightarrow>
                (case items of
                   PList xs \<Rightarrow> str_join '', '' xs
                 | _ \<Rightarrow> Inr text_list_str)) of
        Inl e \<Rightarrow> if caught_by_clean_text e then Inr text_list_str else Inl e
      | Inr r \<Rightarrow> Inr r)"

section \<open>Data frames and the process state\<close>

text \<open>
  A cell of a text column of the frame is a string, or missing (\<open>NaN\<close>, here \<open>None\<close>).
  \<open>raw_row\<close> is a row after \<open>df[columns_to_keep]\<close>; \<open>row\<close> adds the four columns the
  script derives from \<open>nutrition\<close>. A frame is the list of its rows, in index order.
\<close>

type_synonym cell = "string option"

record raw_row =
  name :: cell
  nutrition :: cell
  steps :: cell
  ingredients :: cell

record row = raw_row +
  calories :: pyval
  fat_g :: pyval
  protein_g :: pyval
  carbs_g :: pyval

text \<open>
  The table row of \<open>models.py\<close>. Its fields carry the prefix \<open>recipe_\<close>, since the columns
  of the frame have the same names; \<open>id\<close> is left to the database.
\<close>

record Recipe =
  recipe_id :: "nat option"
  recipe_name :: cell
  recipe_calories :: pyval
  recipe_protein_g :: pyval
  recipe_fat_g :: pyval
  recipe_carbs_g :: pyval
  recipe_ingredients :: cell
  recipe_steps :: cell
  embedding :: "real list"

text \<open>
  The sink is known by the history of its transactions: a commit either stores its
  whole batch or fails and stores nothing of it.
\<close>

datatype db_event = Committed "Recipe list" | Failed "Recipe list"



record world =
  out :: "string list"
  db :: "db_event list"

definition print :: "string \<Rightarrow> world \<Rightarrow> world" where
  "print s w = w\<lparr>out := out w @ [s]\<rparr>"

text \<open>\<open>Series.apply(f)\<close>: \<open>f\<close> on every element in order; the first exception ends it.\<close>

fun apply_col :: "('a \<Rightarrow> exn + 'b) \<Rightarrow> 'a list \<Rightarrow> exn + 'b list" where
  "apply_col f [] = Inr []"
| "apply_col f (x # xs) =
     (case f x of
        Inl e \<Rightarrow> Inl e
      | Inr y \<Rightarrow> (case apply_col f xs of Inl e \<Rightarrow> Inl e | Inr ys \<Rightarrow> Inr (y # ys)))"

section \<open>load_and_clean_data\<close>

definition DATA_FILE_PATH :: string where
  "DATA_FILE_PATH = ''data/RAW_recipes.csv''"

definition SAMPLE_SIZE :: nat where
  "SAMPLE_SIZE = 50000"

text \<open>\<open>ast.literal_eval(x)\<close> on a cell: a missing cell is a float, which is malformed.\<close>

definition literal_eval_cell :: "(string \<Rightarrow> exn + pyval) \<Rightarrow> cell \<Rightarrow> exn + pyval" where
  "literal_eval_cell lit c =
     (case c of
        None \<Rightarrow> Inl (Exception ValueError ''malformed node or string: nan'')
      | Some s \<Rightarrow> lit s)"

text \<open>\<open>x[k]\<close> for a constant index \<open>k \<ge> 0\<close>.\<close>

fun getitem :: "pyval \<Rightarrow> nat \<Rightarrow> exn + pyval" where
  "getitem (PList xs) k =
     (if k < length xs then Inr (xs ! k)
      else Inl (Exception IndexError ''list index out of range''))"
| "getitem (PTuple xs) k =
     (if k < length xs then Inr (xs ! k)
      else Inl (Exception IndexError ''tuple index out of range''))"
| "getitem (PStr s) k =
     (if k < length s then Inr (PStr [s ! k])
      else Inl (Exception IndexError ''string index out of range''))"
| "getitem v k =
     Inl (Exception TypeError
       ([CHR 0x27] @ type_name v @ [CHR 0x27] @ '' object is not subscriptable''))"

definition with_nutrition :: "raw_row \<times> pyval \<times> pyval \<times> pyval \<times> pyval \<Rightarrow> row" where
  "with_nutrition t =
     (case t of (r, c, f, p, cb) \<Rightarrow>
        \<lparr>name = name r, nutrition = nutrition r, steps = steps r, ingredients = ingredients r,
         calories = c, fat_g = f, protein_g = p, carbs_g = cb\<rparr>)"

text \<open>
  The five statements inside the \<open>try\<close> (and again inside the handler): the whole
  column is parsed, then each derived column is taken from the parsed values by its
  fixed index. Any exception leaves the block at once.
\<close>

definition parse_nutrition :: "(string \<Rightarrow> exn + pyval) \<Rightarrow> raw_row list \<Rightarrow> exn + row list" where
  "parse_nutrition lit df =
     (case apply_col (\<lambda>r. literal_eval_cell lit (nutrition r)) df of
        Inl e \<Rightarrow> Inl e
      | Inr nutrition_df \<Rightarrow>
     (case apply_col (\<lambda>x. getitem x 0) nutrition_df of
        Inl e \<Rightarrow> Inl e
      | Inr cal \<Rightarrow>
     (case apply_col (\<lambda>x. getitem x 1) nutrition_df of
        Inl e \<Rightarrow> Inl e
      | Inr fat \<Rightarrow>
     (case apply_col (\<lambda>x. getitem x 4) nutrition_df of
        Inl e \<Rightarrow> Inl e
      | Inr prot \<Rightarrow>
     (case apply_col (\<lambda>x. getitem x 6) nutrition_df of
        Inl e \<Rightarrow> Inl e
      | Inr carbs \<Rightarrow>
          Inr (map with_nutrition (zip df (zip cal (zip fat (zip prot carbs))))))))))"

definition dropna_nutrition :: "raw_row list \<Rightarrow> raw_row list" where
  "dropna_nutrition df = filter (\<lambda>r. nutrition r \<noteq> None) df"

text \<open>
  Step 2 with its handler: \<open>except Exception\<close> prints, drops the rows without a
  nutrition cell and runs the same statements once more, outside any \<open>try\<close>.
\<close>

definition nutrition_step ::
  "(string \<Rightarrow> exn + pyval) \<Rightarrow> raw_row list \<Rightarrow> world \<Rightarrow> (exn + row list) \<times> world" where
  "nutrition_step lit df w =
     (case parse_nutrition lit df of
        Inr df' \<Rightarrow> (Inr df', w)
      | Inl (Exception c msg) \<Rightarrow>
          (parse_nutrition lit (dropna_nutrition df),
           print ''Skipping bad rows.'' (print (''Error parsing nutrition column: '' @ msg) w))
      | Inl e \<Rightarrow> (Inl e, w))"

text \<open>
  \<open>clean_text\<close> on a cell: on a missing cell the parse raises \<open>ValueError\<close>, which the
  handler of \<open>clean_text\<close> catches, and the cell comes back as it is.
\<close>

definition clean_cell :: "(string \<Rightarrow> exn + pyval) \<Rightarrow> cell \<Rightarrow> exn + cell" where
  "clean_cell lit c =
     (case c of
        None \<Rightarrow> Inr None
      | Some s \<Rightarrow> (case clean_text lit s of Inl e \<Rightarrow> Inl e | Inr t \<Rightarrow> Inr (Some t)))"

definition clean_columns :: "(string \<Rightarrow> exn + pyval) \<Rightarrow> row list \<Rightarrow> exn + row list" where
  "clean_columns lit df =
     (case apply_col (\<lambda>r. clean_cell lit (steps r)) df of
        Inl e \<Rightarrow> Inl e
      | Inr ss \<Rightarrow>
     (case apply_col (\<lambda>r. clean_cell lit (ingredients r)) df of
        Inl e \<Rightarrow> Inl e
      | Inr gs \<Rightarrow>
          Inr (map (\<lambda>(r, s, g). r\<lparr>steps := s, ingredients := g\<rparr>) (zip df (zip ss gs)))))"

definition all_present :: "row \<Rightarrow> bool" where
  "all_present r =
     (name r \<noteq> None \<and> calories r \<noteq> PNone \<and> protein_g r \<noteq> PNone \<and> fat_g r \<noteq> PNone
      \<and> carbs_g r \<noteq> PNone \<and> steps r \<noteq> None \<and> ingredients r \<noteq> None)"

definition dropna_required :: "row list \<Rightarrow> row list" where
  "dropna_required df = filter all_present df"

text \<open>\<open>v > 0\<close> on an element of the \<open>calories\<close> column.\<close>

fun gt_zero :: "pyval \<Rightarrow> exn + bool" where
  "gt_zero (PInt i) = Inr (0 < i)"
| "gt_zero (PFloat x) = Inr (0 < x)"
| "gt_zero (PBool b) = Inr b"
| "gt_zero v =
     Inl (Exception TypeError
       ([CHR 0x27] @ ''>'' @ [CHR 0x27] @ '' not supported between instances of ''
        @ [CHR 0x27] @ type_name v @ [CHR 0x27] @ '' and '' @ [CHR 0x27] @ ''int'' @ [CHR 0x27]))"

definition positive_calories :: "row list \<Rightarrow> exn + row list" where
  "positive_calories df =
     (case apply_col (\<lambda>r. gt_zero (calories r)) df of
        Inl e \<Rightarrow> Inl e
      | Inr keep \<Rightarrow> Inr (map fst (filter snd (zip df keep))))"

subsection \<open>Sampling\<close>

text \<open>
  \<open>DataFrame.sample(n, random_state)\<close> is library code. It draws the positions with
  \<open>rs.choice(len(df), size=n, replace=False)\<close> and takes those rows, where \<open>rs\<close> is a
  generator seeded with \<open>random_state\<close> when one is given and the generator of the
  process otherwise. The generator's draw is the parameter \<open>choice\<close>.
\<close>

datatype rng = Seeded nat | Ambient nat

definition take_rows :: "'a list \<Rightarrow> nat list \<Rightarrow> exn + 'a list" where
  "take_rows df locs =
     apply_col (\<lambda>i. if i < length df then Inr (df ! i)
                     else Inl (Exception IndexError ''indices are out-of-bounds'')) locs"

definition df_sample ::
  "(rng \<Rightarrow> nat \<Rightarrow> nat \<Rightarrow> nat list) \<Rightarrow> rng \<Rightarrow> nat \<Rightarrow> nat option \<Rightarrow> 'a list \<Rightarrow> exn + 'a list" where
  "df_sample choice ambient n random_state df =
     (if length df < n then
        Inl (Exception ValueError
          (''Cannot take a larger sample than population when '' @ [CHR 0x27]
           @ ''replace=False'' @ [CHR 0x27]))
      else take_rows df
             (choice (case random_state of Some seed \<Rightarrow> Seeded seed | None \<Rightarrow> ambient)
                (length df) n))"

text \<open>Step 5, for a sample size \<open>sample_size\<close> (the script's is \<open>SAMPLE_SIZE\<close>).\<close>

definition sample_step ::
  "(rng \<Rightarrow> nat \<Rightarrow> nat \<Rightarrow> nat list) \<Rightarrow> rng \<Rightarrow> nat \<Rightarrow> 'a list \<Rightarrow> exn + 'a list" where
  "sample_step choice ambient sample_size df =
     (if sample_size < length df then df_sample choice ambient sample_size (Some 42) df
      else Inr df)"

subsection \<open>The whole function\<close>

text \<open>Steps 2 to 4: the Cleaner proper, from the kept columns to the filtered frame.\<close>

definition clean_frame ::
  "(string \<Rightarrow> exn + pyval) \<Rightarrow> raw_row list \<Rightarrow> world \<Rightarrow> (exn + row list) \<times> world" where
  "clean_frame lit df w =
     (case nutrition_step lit df w of
        (Inl e, w1) \<Rightarrow> (Inl e, w1)
      | (Inr df1, w1) \<Rightarrow>
     (case clean_columns lit df1 of
        Inl e \<Rightarrow> (Inl e, w1)
      | Inr df2 \<Rightarrow> (positive_calories (dropna_required df2), w1)))"

text \<open>
  \<open>csv\<close> is what \<open>pd.read_csv(DATA_FILE_PATH)\<close> does: it raises, or returns the frame
  (taken here with the four kept columns). Only \<open>FileNotFoundError\<close> is handled, by
  \<open>sys.exit(1)\<close>.
\<close>

definition load_and_clean_data ::
  "(exn + raw_row list) \<Rightarrow> (string \<Rightarrow> exn + pyval) \<Rightarrow> (rng \<Rightarrow> nat \<Rightarrow> nat \<Rightarrow> nat list) \<Rightarrow> rng
     \<Rightarrow> world \<Rightarrow> (exn + row list) \<times> world" where
  "load_and_clean_data csv lit choice ambient w =
     (let w1 = print (''Loading data from '' @ DATA_FILE_PATH @ ''...'') w in
      case csv of
        Inl (Exception FileNotFoundError msg) \<Rightarrow>
          (Inl (SystemExit 1),
           print (''Please download '' @ [CHR 0x27] @ ''RAW_recipes.csv'' @ [CHR 0x27]
                  @ '' from Kaggle and place it in the '' @ [CHR 0x27] @ ''data'' @ [CHR 0x27]
                  @ '' folder.'')
             (print (''ERROR: Data file not found at '' @ DATA_FILE_PATH) w1))
      | Inl e \<Rightarrow> (Inl e, w1)
      | Inr df \<Rightarrow>
          (let w2 = print (''Loaded '' @ str_nat (length df)
                           @ '' total songs. Cleaning and processing...'') w1 in
           case clean_frame lit df w2 of
             (Inl e, w3) \<Rightarrow> (Inl e, w3)
           | (Inr df4, w3) \<Rightarrow>
               (case sample_step choice ambient SAMPLE_SIZE df4 of
                  Inl e \<Rightarrow> (Inl e, w3)
                | Inr df5 \<Rightarrow>
                    (Inr df5,
                     print (''Cleaned and sampled data. Total recipes to load: ''
                            @ str_nat (length df5)) w3))))"

section \<open>create_embeddings_and_load\<close>

definition BATCH_SIZE :: nat where
  "BATCH_SIZE = 1000"

text \<open>\<open>range(start, stop, step)\<close> for non-negative arguments; a zero step raises.\<close>

function range_steps :: "nat \<Rightarrow> nat \<Rightarrow> nat \<Rightarrow> nat list" where
  "range_steps i n b = (if 0 < b \<and> i < n then i # range_steps (i + b) n b else [])"
  by pat_completeness auto
termination
  by (relation "measure (\<lambda>(i, n, b). n - i)") auto

declare range_steps.simps [simp del]

definition py_range :: "nat \<Rightarrow> nat \<Rightarrow> nat \<Rightarrow> exn + nat list" where
  "py_range start stop step =
     (if step = 0 then Inl (Exception ValueError ''range() arg 3 must not be zero'')
      else Inr (range_steps start stop step))"

text \<open>\<open>df.iloc[i : j]\<close> for \<open>0 \<le> i\<close>: the slice is clipped to the frame.\<close>

definition iloc :: "'a list \<Rightarrow> nat \<Rightarrow> nat \<Rightarrow> 'a list" where
  "iloc df i j = take (j - i) (drop i df)"

text \<open>
  The text to embed: \<open>name + ". Ingredients: " + ingredients\<close>, row by row; a missing
  operand makes the result missing.
\<close>

definition text_to_embed :: "row \<Rightarrow> cell" where
  "text_to_embed r =
     (case (name r, ingredients r) of
        (Some n, Some g) \<Rightarrow> Some (n @ ''. Ingredients: '' @ g)
      | _ \<Rightarrow> None)"

definition make_recipe :: "row \<times> real list \<Rightarrow> Recipe" where
  "make_recipe t =
     (case t of (r, e) \<Rightarrow>
        \<lparr>recipe_id = None, recipe_name = name r, recipe_calories = calories r,
         recipe_protein_g = protein_g r, recipe_fat_g = fat_g r, recipe_carbs_g = carbs_g r,
         recipe_ingredients = ingredients r, recipe_steps = steps r, embedding = e\<rparr>)"

text \<open>
  The embedding model is \<open>model\<close>: \<open>model.encode(texts)\<close> raises or returns vectors.
  The sink is \<open>commit\<close>: given the transactions so far and the batch added to the
  session, \<open>session.commit()\<close> succeeds (\<open>None\<close>) or raises.
\<close>

type_synonym encoder = "cell list \<Rightarrow> exn + real list list"

type_synonym committer = "db_event list \<Rightarrow> Recipe list \<Rightarrow> exn option"

text \<open>
  The \<open>for\<close> loop over the remaining start positions:
  \<^verbatim>\<open>
  for i in tqdm(range(0, len(df), BATCH_SIZE), desc="Loading batches"):
      batch_df = df.iloc[i : i + BATCH_SIZE]
      texts_to_embed = (batch_df['name'] + ". Ingredients: " + batch_df['ingredients']).tolist()
      embeddings = model.encode(texts_to_embed, show_progress_bar=False)
      objects_to_add = []
      for idx, (row, embedding) in enumerate(zip(batch_df.to_dict('records'), embeddings)):
          objects_to_add.append(Recipe(name=row['name'], ..., embedding=embedding.tolist()))
      session.add_all(objects_to_add)
      session.commit()
  \<close>
  An exception of \<open>encode\<close> or of \<open>commit\<close> leaves the loop and the function. The
  progress bar of \<open>tqdm\<close> goes to the error stream and is left out.
\<close>

fun load_batches ::
  "encoder \<Rightarrow> committer \<Rightarrow> row list \<Rightarrow> nat list \<Rightarrow> world \<Rightarrow> (exn + unit) \<times> world" where
  "load_batches model commit df [] w = (Inr (), w)"
| "load_batches model commit df (i # starts) w =
     (let batch_df = iloc df i (i + BATCH_SIZE);
          texts_to_embed = map text_to_embed batch_df in
      case model texts_to_embed of
        Inl e \<Rightarrow> (Inl e, w)
      | Inr embeddings \<Rightarrow>
          (let objects_to_add = map make_recipe (zip batch_df embeddings) in
           case commit (db w) objects_to_add of
             Some e \<Rightarrow> (Inl e, w\<lparr>db := db w @ [Failed objects_to_add]\<rparr>)
           | None \<Rightarrow>
               load_batches model commit df starts
                 (w\<lparr>db := db w @ [Committed objects_to_add]\<rparr>)))"

definition create_embeddings_and_load ::
  "encoder \<Rightarrow> committer \<Rightarrow> row list \<Rightarrow> world \<Rightarrow> (exn + unit) \<times> world" where
  "create_embeddings_and_load model commit df w =
     (let w1 = print (''Starting to embed and load '' @ str_nat (length df)
                      @ '' recipes in batches of '' @ str_nat BATCH_SIZE @ ''...'') w in
      case py_range 0 (length df) BATCH_SIZE of
        Inl e \<Rightarrow> (Inl e, w1)
      | Inr starts \<Rightarrow>
          (case load_batches model commit df starts w1 of
             (Inl e, w2) \<Rightarrow> (Inl e, w2)
           | (Inr u, w2) \<Rightarrow> (Inr (), print ''Data loading complete!'' w2)))"

text \<open>The batches the loop slices out of the frame, in order.\<close>

definition batches :: "'a list \<Rightarrow> 'a list list" where
  "batches df = map (\<lambda>i. iloc df i (i + BATCH_SIZE)) (range_steps 0 (length df) BATCH_SIZE)"

section \<open>main\<close>

definition EMBEDDING_MODEL :: string where
  "EMBEDDING_MODEL = ''all-MiniLM-L6-v2''"

text \<open>
  What the collaborators of one run do: \<open>create_engine\<close> and the bootstrap statements
  of \<open>initialize_database\<close> raise or not, the \<open>SentenceTransformer\<close> constructor raises
  or returns the model, \<open>read_csv\<close> raises or returns the frame.
\<close>

record env =
  create_engine :: "exn option"
  bootstrap :: "exn option"
  SentenceTransformer :: "exn + encoder"
  read_csv :: "exn + raw_row list"
  literal_eval :: "string \<Rightarrow> exn + pyval"
  choice :: "rng \<Rightarrow> nat \<Rightarrow> nat \<Rightarrow> nat list"
  ambient_rng :: rng
  db_commit :: committer

definition initialize_database :: "exn option \<Rightarrow> world \<Rightarrow> (exn + unit) \<times> world" where
  "initialize_database boot w =
     (let w1 = print ''Initializing database...'' w in
      case boot of
        None \<Rightarrow> (Inr (), print ''Database initialized and pgvector extension is active.'' w1)
      | Some (Exception c msg) \<Rightarrow>
          (Inl (SystemExit 1),
           print (''Please ensure you have run '' @ [CHR 0x27]
                  @ ''create extension if not exists vector;'' @ [CHR 0x27]
                  @ '' in your Supabase SQL Editor.'')
             (print (''Error initializing database: '' @ msg) w1))
      | Some e \<Rightarrow> (Inl e, w1))"

text \<open>The statements inside the \<open>try\<close> of \<open>main\<close>.\<close>

definition main_body :: "env \<Rightarrow> world \<Rightarrow> (exn + unit) \<times> world" where
  "main_body ev w =
     (case create_engine ev of
        Some e \<Rightarrow> (Inl e, w)
      | None \<Rightarrow>
     (case initialize_database (bootstrap ev) w of
        (Inl e, w1) \<Rightarrow> (Inl e, w1)
      | (Inr u, w1) \<Rightarrow>
     (let w2 = print (''Loading embedding model: '' @ [CHR 0x27] @ EMBEDDING_MODEL
                      @ [CHR 0x27] @ ''...'') w1 in
      case SentenceTransformer ev of
        Inl e \<Rightarrow> (Inl e, w2)
      | Inr model \<Rightarrow>
     (let w3 = print ''Embedding model loaded.'' w2 in
      case load_and_clean_data (read_csv ev) (literal_eval ev) (choice ev) (ambient_rng ev) w3 of
        (Inl e, w4) \<Rightarrow> (Inl e, w4)
      | (Inr df, w4) \<Rightarrow>
     (case create_embeddings_and_load model (db_commit ev) df w4 of
        (Inl e, w5) \<Rightarrow> (Inl e, w5)
      | (Inr u, w5) \<Rightarrow>
          (Inr (),
           print ''You are now ready for Part 2: Building the RAG API.''
             (print (''Your Supabase DB now contains '' @ str_nat (length df)
                     @ '' recipes, each with a 384-dimension vector.'')
                (print ([CHR 0x0A] @ ''--- SUCCESSFULLY POPULATED YOUR NUTRITIONAL DATABASE ---'')
                   w5))))))))"

text \<open>\<open>main\<close>: the \<open>try\<close> with its \<open>except Exception as e\<close>, which prints and returns.\<close>

definition main :: "env \<Rightarrow> world \<Rightarrow> (exn + unit) \<times> world" where
  "main ev w =
     (case main_body ev w of
        (Inl (Exception c msg), w') \<Rightarrow>
          (Inr (),
           print (''Please check your DATABASE_URL in the .env file and ensure your ''
                  @ ''Supabase project is active.'')
             (print ([CHR 0x0A] @ ''An error occurred: '' @ msg) w'))
      | r \<Rightarrow> r)"

text \<open>
  The exit status of the process that runs \<open>main()\<close>: 0 when \<open>main\<close> returns, the
  argument of \<open>sys.exit\<close> when \<open>SystemExit\<close> leaves it, 130 when \<open>KeyboardInterrupt\<close>
  leaves it (the interpreter then ends by the interrupt signal, which a shell reports as
  128 + 2) and 1 for any other exception.
\<close>

definition exit_status :: "env \<Rightarrow> world \<Rightarrow> nat" where
  "exit_status ev w =
     (case fst (main ev w) of
        Inr u \<Rightarrow> 0
      | Inl (SystemExit n) \<Rightarrow> n
      | Inl KeyboardInterrupt \<Rightarrow> 130
      | Inl (Exception c msg) \<Rightarrow> 1)"

section \<open>Vocabulary of the properties\<close>

text \<open>The two lines the handler of \<open>main\<close> prints for an exception whose text is \<open>msg\<close>.\<close>

definition diagnostic :: "string \<Rightarrow> string list" where
  "diagnostic msg =
     [[CHR 0x0A] @ ''An error occurred: '' @ msg,
      ''Please check your DATABASE_URL in the .env file and ensure your ''
      @ ''Supabase project is active.'']"

text \<open>
  What step 2 establishes for a row, used as an invariant of the later steps: the four
  derived columns are the items 0, 1, 4 and 6 of the parsed nutrition cell.
\<close>

definition extracted :: "(string \<Rightarrow> exn + pyval) \<Rightarrow> row \<Rightarrow> bool" where
  "extracted lit r =
     (case literal_eval_cell lit (nutrition r) of
        Inl e \<Rightarrow> False
      | Inr x \<Rightarrow>
          getitem x 0 = Inr (calories r) \<and> getitem x 1 = Inr (fat_g r)
          \<and> getitem x 4 = Inr (protein_g r) \<and> getitem x 6 = Inr (carbs_g r))"

text \<open>
  A row of the file whose nutrition cell parses to a value that has the items 0, 1, 4 and
  6: the statements of step 2 raise on no such row.
\<close>

definition parses :: "(string \<Rightarrow> exn + pyval) \<Rightarrow> raw_row \<Rightarrow> bool" where
  "parses lit r =
     (case literal_eval_cell lit (nutrition r) of
        Inl e \<Rightarrow> False
      | Inr x \<Rightarrow>
          (case (getitem x 0, getitem x 1, getitem x 4, getitem x 6) of
             (Inr c, Inr f, Inr p, Inr cb) \<Rightarrow> True
           | _ \<Rightarrow> False))"

text \<open>
  Rows by their fate in the Cleaner. \<open>row_calories lit r = Some c\<close> says that the row \<open>r\<close>
  of the file passes every step up to the filter on calories, where its calories are
  \<open>c\<close>: its nutrition cell parses, the items 0, 1, 4 and 6 exist and none is \<open>None\<close>, its
  name is present, and its steps and ingredients are present and cleaned without error.
  Such a row is valid when \<open>c > 0\<close> holds (\<open>positive_row\<close>); \<open>zero_row\<close> is the row whose
  calories are the integer or the float zero.
\<close>

definition cleans :: "(string \<Rightarrow> exn + pyval) \<Rightarrow> cell \<Rightarrow> bool" where
  "cleans lit c = (case clean_cell lit c of Inr (Some t) \<Rightarrow> True | _ \<Rightarrow> False)"

definition row_calories :: "(string \<Rightarrow> exn + pyval) \<Rightarrow> raw_row \<Rightarrow> pyval option" where
  "row_calories lit r =
     (case literal_eval_cell lit (nutrition r) of
        Inl e \<Rightarrow> None
      | Inr x \<Rightarrow>
          (case (getitem x 0, getitem x 1, getitem x 4, getitem x 6) of
             (Inr c, Inr f, Inr p, Inr cb) \<Rightarrow>
               if name r \<noteq> None \<and> c \<noteq> PNone \<and> f \<noteq> PNone \<and> p \<noteq> PNone \<and> cb \<noteq> PNone
                  \<and> cleans lit (steps r) \<and> cleans lit (ingredients r)
               then Some c else None
           | _ \<Rightarrow> None))"

definition positive_row :: "(string \<Rightarrow> exn + pyval) \<Rightarrow> raw_row \<Rightarrow> bool" where
  "positive_row lit r =
     (case row_calories lit r of Some c \<Rightarrow> gt_zero c = Inr True | None \<Rightarrow> False)"

definition zero_row :: "(string \<Rightarrow> exn + pyval) \<Rightarrow> raw_row \<Rightarrow> bool" where
  "zero_row lit r = (row_calories lit r = Some (PInt 0) \<or> row_calories lit r = Some (PFloat 0))"

text \<open>
  What \<open>choice(p, size=n, replace=False)\<close> promises of a draw: \<open>n\<close> distinct positions
  below \<open>p\<close>, whatever the state of the generator.
\<close>

definition draws_without_replacement :: "(rng \<Rightarrow> nat \<Rightarrow> nat \<Rightarrow> nat list) \<Rightarrow> bool" where
  "draws_without_replacement ch =
     (\<forall>st p n. n \<le> p \<longrightarrow>
        length (ch st p n) = n \<and> distinct (ch st p n) \<and> (\<forall>i \<in> set (ch st p n). i < p))"

text \<open>
  The objects the loop builds for a batch, and the contract of the Embedder: one vector
  for each text it is given.
\<close>

definition batch_recipes :: "encoder \<Rightarrow> row list \<Rightarrow> Recipe list" where
  "batch_recipes model batch_df =
     (case model (map text_to_embed batch_df) of
        Inl e \<Rightarrow> []
      | Inr embeddings \<Rightarrow> map make_recipe (zip batch_df embeddings))"

definition one_vector_per_text :: "encoder \<Rightarrow> bool" where
  "one_vector_per_text model = (\<forall>texts vs. model texts = Inr vs \<longrightarrow> length vs = length texts)"

section \<open>Concrete collaborators and inputs\<close>

text \<open>
  Small collaborators on which the functions above can be run: a draw that picks the
  first positions, a model that returns one zero vector of dimension 384 per text, a sink
  that accepts every transaction, and a sink that accepts the first transaction of its
  history and refuses every later one.
\<close>

definition first_positions :: "rng \<Rightarrow> nat \<Rightarrow> nat \<Rightarrow> nat list" where
  "first_positions st p n = [0..<n]"

definition zero_model :: encoder where
  "zero_model texts = Inr (map (\<lambda>t. replicate 384 0) texts)"

definition always_commits :: committer where
  "always_commits history batch = None"


definition empty_world :: world where
  "empty_world = \<lparr>out = [], db = []\<rparr>"

text \<open>
  Rows of a recipe file: two valid ones, one with calories 0.0, one without a nutrition
  cell and one whose nutrition cell is no literal (a syntax error of Python).
\<close>

definition soup :: raw_row where
  "soup = \<lparr>name = Some ''soup'', nutrition = Some ''[100.0, 5.0, 2.0, 1.0, 3.0, 0.5, 10.0]'',
           steps = Some ''['mix', 'bake']'', ingredients = Some ''['salt', 'water']''\<rparr>"

definition water :: raw_row where
  "water = \<lparr>name = Some ''water'', nutrition = Some ''[0.0, 5.0, 2.0, 1.0, 3.0, 0.5, 10.0]'',
            steps = Some ''['pour']'', ingredients = Some ''['water']''\<rparr>"

definition stew :: raw_row where
  "stew = \<lparr>name = Some ''stew'', nutrition = Some ''[250.5, 12.0, 0.0, 7.0, 30.0, 4.0, 8.0]'',
           steps = Some ''['chop', 'boil']'', ingredients = Some ''['beef', 'salt']''\<rparr>"

definition unlabelled :: raw_row where
  "unlabelled = \<lparr>name = Some ''unlabelled'', nutrition = None,
                 steps = Some ''['mix']'', ingredients = Some ''['salt']''\<rparr>"

definition garbled :: raw_row where
  "garbled = \<lparr>name = Some ''garbled'', nutrition = Some ''?'',
              steps = Some ''['mix']'', ingredients = Some ''['salt']''\<rparr>"

text \<open>The rows \<open>soup\<close> and \<open>stew\<close> as they leave the Cleaner, and a frame of 2500 rows.\<close>

definition cleaned :: "raw_row \<Rightarrow> pyval list \<Rightarrow> string \<Rightarrow> string \<Rightarrow> row" where
  "cleaned r vs s g =
     \<lparr>name = name r, nutrition = nutrition r, steps = Some s, ingredients = Some g,
      calories = vs ! 0, fat_g = vs ! 1, protein_g = vs ! 4, carbs_g = vs ! 6\<rparr>"

definition soup_row :: row where
  "soup_row =
     cleaned soup [PFloat 100, PFloat 5, PFloat 2, PFloat 1, PFloat 3, PFloat (1 / 2), PFloat 10]
       ''mix, bake'' ''salt, water''"

definition stew_row :: row where
  "stew_row =
     cleaned stew
       [PFloat (501 / 2), PFloat 12, PFloat 0, PFloat 7, PFloat 30, PFloat 4, PFloat 8]
       ''chop, boil'' ''beef, salt''"

definition many_rows :: "row list" where
  "many_rows = replicate 2500 soup_row"

text \<open>
  A run in which every collaborator works, a run whose model cannot be loaded, a run whose
  data file cannot be opened, a run whose database cannot be initialised, and a run that is
  interrupted from the keyboard while the model encodes the first batch.
\<close>

definition demo_env :: env where
  "demo_env =
     \<lparr>create_engine = None, bootstrap = None, SentenceTransformer = Inr zero_model,
      read_csv = Inr [soup, water, stew], literal_eval = fragment_eval,
      choice = first_positions, ambient_rng = Ambient 0, db_commit = always_commits\<rparr>"

definition unloadable :: env where
  "unloadable = demo_env\<lparr>SentenceTransformer := Inl (Exception OtherError ''no such model'')\<rparr>"





section \<open>Properties of clean_text\<close>

lemma reads_literals_fragment_eval: "reads_literals fragment_eval"
  by (simp add: reads_literals_def fragment_eval_def)

lemma str_items_map_PStr: "str_items k (map PStr ss) = Inr ss"
  by (induction ss arbitrary: k) auto

lemma str_items_not_str:
  "\<exists>v \<in> set xs. \<forall>t. v \<noteq> PStr t \<Longrightarrow> \<exists>msg. str_items k xs = Inl (Exception TypeError msg)"
proof (induction k xs rule: str_items.induct)
  case (1 k)
  then show ?case by simp
next
  case (2 k s vs)
  then show ?case by (auto split: sum.splits)
qed auto

lemma parse_mix_bake:
  "parse_literal ''['mix', 'bake']'' = Some (PList [PStr ''mix'', PStr ''bake''])"
  by code_simp

lemma parse_one_two: "parse_literal ''[1, 2]'' = Some (PList [PInt 1, PInt 2])"
  by code_simp

lemma parse_mix_two: "parse_literal ''['mix', 2]'' = Some (PList [PStr ''mix'', PInt 2])"
  by code_simp

lemma parse_twelve: "parse_literal ''12'' = Some (PInt 12)"
  by code_simp

lemma parse_abc: "parse_literal ''abc'' = None"
  by code_simp

lemma str_nat_0: "str_nat 0 = ''0''" by code_simp
lemma str_nat_1: "str_nat (Suc 0) = ''1''" by code_simp

text \<open>
  Claim C10. \<open>clean_text\<close> is not total on strings: when the string parses to a list
  that holds an element which is not a string, \<open>", ".join\<close> raises \<open>TypeError\<close>, the
  handler does not catch it, and the exception leaves \<open>clean_text\<close> instead of the
  original text being returned. \<open>"[1, 2]"\<close> is such a string.
\<close>

theorem clean_text_not_total:
  "(reads_literals lit \<longrightarrow>
      clean_text lit ''[1, 2]''
        = Inl (Exception TypeError ''sequence item 0: expected str instance, int found''))
   \<and> (lit s = Inr (PList xs) \<and> (\<exists>v \<in> set xs. \<forall>t. v \<noteq> PStr t) \<longrightarrow>
        (\<exists>msg. clean_text lit s = Inl (Exception TypeError msg)))"
proof (intro conjI impI)
  assume "reads_literals lit"
  then have "lit ''[1, 2]'' = Inr (PList [PInt 1, PInt 2])"
    using parse_one_two by (simp add: reads_literals_def)
  then show "clean_text lit ''[1, 2]''
       = Inl (Exception TypeError ''sequence item 0: expected str instance, int found'')"
    by (simp add: clean_text_def str_join_def str_nat_0)
next
  assume "lit s = Inr (PList xs) \<and> (\<exists>v \<in> set xs. \<forall>t. v \<noteq> PStr t)"
  then have a: "lit s = Inr (PList xs)" and b: "\<exists>v \<in> set xs. \<forall>t. v \<noteq> PStr t"
    by simp_all
  from str_items_not_str [OF b, of 0] obtain msg where "str_items 0 xs = Inl (Exception TypeError msg)"
    by blast
  with a show "\<exists>msg. clean_text lit s = Inl (Exception TypeError msg)"
    by (simp add: clean_text_def str_join_def)
qed

text \<open>The string \<open>"[1, 2]"\<close> under the reader of the fragment.\<close>

theorem clean_text_not_total_witness:
  "reads_literals fragment_eval
   \<and> fragment_eval ''[1, 2]'' = Inr (PList [PInt 1, PInt 2])
   \<and> (\<exists>v \<in> set [PInt 1, PInt 2]. \<forall>t. v \<noteq> PStr t)
   \<and> clean_text fragment_eval ''[1, 2]''
        = Inl (Exception TypeError ''sequence item 0: expected str instance, int found'')"
  using clean_text_not_total [of fragment_eval "''[1, 2]''" "[PInt 1, PInt 2]"]
    reads_literals_fragment_eval parse_one_two
  by (simp add: fragment_eval_def)

text \<open>
  Claim C7 says that \<open>clean_text\<close> returns the elements joined whenever the string
  parses as a list. On \<open>"['mix', 2]"\<close> the parse succeeds and nothing is returned: the
  join raises.
\<close>

theorem clean_text_raises_counterexample:
  "fragment_eval ''['mix', 2]'' = Inr (PList [PStr ''mix'', PInt 2])
   \<and> clean_text fragment_eval ''['mix', 2]''
        = Inl (Exception TypeError ''sequence item 1: expected str instance, int found'')"
  using parse_mix_two
  by (simp add: fragment_eval_def clean_text_def str_join_def str_nat_1)

text \<open>
  Claim C7, amended. For every input string: when the parse returns a list whose
  elements are all strings, \<open>clean_text\<close> returns them joined with \<open>", "\<close>; when the
  parse returns a value that is not a list, or raises \<open>ValueError\<close> or \<open>SyntaxError\<close>,
  it returns the original string unchanged. In particular
  \<open>clean_text("['mix', 'bake']") = "mix, bake"\<close>.
\<close>

theorem clean_text_list_of_strings:
  "(lit s = Inr (PList (map PStr ss)) \<longrightarrow> clean_text lit s = Inr (join_strs '', '' ss))
   \<and> (lit s = Inr v \<and> (\<forall>xs. v \<noteq> PList xs) \<longrightarrow> clean_text lit s = Inr s)
   \<and> (lit s = Inl (Exception c m) \<and> (c = ValueError \<or> c = SyntaxError)
        \<longrightarrow> clean_text lit s = Inr s)
   \<and> (reads_literals lit \<longrightarrow> clean_text lit ''['mix', 'bake']'' = Inr ''mix, bake'')"
proof (intro conjI impI)
  assume "lit s = Inr (PList (map PStr ss))"
  then show "clean_text lit s = Inr (join_strs '', '' ss)"
    by (simp add: clean_text_def str_join_def str_items_map_PStr)
next
  assume "lit s = Inr v \<and> (\<forall>xs. v \<noteq> PList xs)"
  then show "clean_text lit s = Inr s"
    by (cases v) (simp_all add: clean_text_def)
next
  assume "lit s = Inl (Exception c m) \<and> (c = ValueError \<or> c = SyntaxError)"
  then show "clean_text lit s = Inr s"
    by (auto simp add: clean_text_def)
next
  assume "reads_literals lit"
  then have "lit ''['mix', 'bake']'' = Inr (PList (map PStr [''mix'', ''bake'']))"
    using parse_mix_bake by (simp add: reads_literals_def)
  then have "clean_text lit ''['mix', 'bake']'' = Inr (join_strs '', '' [''mix'', ''bake''])"
    by (simp only: clean_text_def str_join_def str_items_map_PStr sum.case pyval.case)
  then show "clean_text lit ''['mix', 'bake']'' = Inr ''mix, bake''"
    by simp
qed

text \<open>One string for each case, under the reader of the fragment.\<close>

theorem clean_text_list_of_strings_witness:
  "fragment_eval ''['mix', 'bake']'' = Inr (PList (map PStr [''mix'', ''bake'']))
   \<and> clean_text fragment_eval ''['mix', 'bake']'' = Inr ''mix, bake''
   \<and> fragment_eval ''12'' = Inr (PInt 12) \<and> (\<forall>xs. PInt 12 \<noteq> PList xs)
   \<and> clean_text fragment_eval ''12'' = Inr ''12''
   \<and> fragment_eval ''abc'' = Inl (Exception SyntaxError ''invalid syntax'')
   \<and> clean_text fragment_eval ''abc'' = Inr ''abc''
   \<and> reads_literals fragment_eval"
  using clean_text_list_of_strings [of fragment_eval "''['mix', 'bake']''" "[''mix'', ''bake'']"]
    clean_text_list_of_strings [of fragment_eval "''12''" _ "PInt 12"]
    clean_text_list_of_strings [of fragment_eval "''abc''" _ _ SyntaxError "''invalid syntax''"]
    reads_literals_fragment_eval parse_mix_bake parse_twelve parse_abc
  by (simp add: fragment_eval_def)

section \<open>Properties of main\<close>

text \<open>
  Claim C3 says that a failing model load ends the process with a status other than 0.
  In the run \<open>unloadable\<close> the constructor raises and the status is 0.
\<close>

theorem model_load_failure_counterexample:
  "SentenceTransformer unloadable = Inl (Exception OtherError ''no such model'')
   \<and> exit_status unloadable empty_world = 0"
  by (simp add: unloadable_def demo_env_def exit_status_def main_def main_body_def
      initialize_database_def print_def empty_world_def)

text \<open>
  Claim C3, amended. If the engine is created, the database is initialised and the
  \<open>SentenceTransformer\<close> constructor raises an exception of a subclass of \<open>Exception\<close>,
  the handler of \<open>main\<close> prints the diagnostic and \<open>main\<close> returns: the process ends with
  status 0, after the three lines of the steps before and the two lines of the
  diagnostic, and with the sink as it was; the data file is not read.
\<close>

theorem model_load_failure:
  "create_engine ev = None \<Longrightarrow> bootstrap ev = None \<Longrightarrow>
   SentenceTransformer ev = Inl (Exception c msg) \<Longrightarrow>
     exit_status ev w = 0
     \<and> fst (main ev w) = Inr ()
     \<and> db (snd (main ev w)) = db w
     \<and> out (snd (main ev w))
         = out w
           @ [''Initializing database...'',
              ''Database initialized and pgvector extension is active.'',
              ''Loading embedding model: '' @ [CHR 0x27] @ EMBEDDING_MODEL @ [CHR 0x27] @ ''...'']
           @ diagnostic msg"
  by (simp add: exit_status_def main_def main_body_def initialize_database_def print_def
      diagnostic_def)

text \<open>The run \<open>unloadable\<close> from the empty world.\<close>

theorem model_load_failure_witness:
  "create_engine unloadable = None \<and> bootstrap unloadable = None
   \<and> SentenceTransformer unloadable = Inl (Exception OtherError ''no such model'')
   \<and> exit_status unloadable empty_world = 0
   \<and> db (snd (main unloadable empty_world)) = []
   \<and> length (out (snd (main unloadable empty_world))) = 5"
proof -
  have h: "create_engine unloadable = None" "bootstrap unloadable = None"
    "SentenceTransformer unloadable = Inl (Exception OtherError ''no such model'')"
    by (simp_all add: unloadable_def demo_env_def)
  show ?thesis using h model_load_failure [OF h, of empty_world]
    by (simp add: empty_world_def diagnostic_def)
qed

section \<open>Properties of the Cleaner\<close>

subsection \<open>Columns and rows\<close>

lemma apply_col_Inr_iff: "apply_col f xs = Inr ys \<longleftrightarrow> map f xs = map Inr ys"
proof (induction xs arbitrary: ys)
  case Nil
  then show ?case by auto
next
  case (Cons x xs)
  show ?case
  proof (cases ys)
    case Nil
    then show ?thesis by (simp split: sum.splits)
  next
    case (Cons y ys')
    with Cons.IH [of ys'] show ?thesis by (auto split: sum.splits)
  qed
qed

lemma apply_col_length: "apply_col f xs = Inr ys \<Longrightarrow> length ys = length xs"
  by (metis apply_col_Inr_iff length_map)

lemma apply_col_nth: "apply_col f xs = Inr ys \<Longrightarrow> i < length xs \<Longrightarrow> f (xs ! i) = Inr (ys ! i)"
  by (metis apply_col_Inr_iff apply_col_length nth_map)

lemma apply_col_fails: "x \<in> set xs \<Longrightarrow> f x = Inl e \<Longrightarrow> \<exists>e'. apply_col f xs = Inl e'"
  by (induction xs) (auto split: sum.splits)

lemma apply_col_succeeds: "\<forall>x \<in> set xs. \<exists>y. f x = Inr y \<Longrightarrow> \<exists>ys. apply_col f xs = Inr ys"
  by (induction xs) (auto split: sum.splits)

lemma parse_nutrition_rows:
  assumes "parse_nutrition lit df = Inr df'"
  shows "length df' = length df"
    and "i < length df \<Longrightarrow> extracted lit (df' ! i)"
    and "i < length df \<Longrightarrow> raw_row.truncate (df' ! i) = df ! i"
proof -
  from assms obtain xs cal fat prot carbs where
    xs: "apply_col (\<lambda>r. literal_eval_cell lit (nutrition r)) df = Inr xs"
    and cal: "apply_col (\<lambda>x. getitem x 0) xs = Inr cal"
    and fat: "apply_col (\<lambda>x. getitem x 1) xs = Inr fat"
    and prot: "apply_col (\<lambda>x. getitem x 4) xs = Inr prot"
    and carbs: "apply_col (\<lambda>x. getitem x 6) xs = Inr carbs"
    and df': "df' = map with_nutrition (zip df (zip cal (zip fat (zip prot carbs))))"
    by (auto simp add: parse_nutrition_def split: sum.splits)
  have len: "length xs = length df" "length cal = length df" "length fat = length df"
    "length prot = length df" "length carbs = length df"
    using xs cal fat prot carbs by (simp_all add: apply_col_length)
  show "length df' = length df" by (simp add: df' len)
  {
    assume i: "i < length df"
    then have row: "df' ! i = with_nutrition (df ! i, cal ! i, fat ! i, prot ! i, carbs ! i)"
      by (simp add: df' len)
    have "literal_eval_cell lit (nutrition (df ! i)) = Inr (xs ! i)"
      using apply_col_nth [OF xs i] .
    moreover have "getitem (xs ! i) 0 = Inr (cal ! i)" "getitem (xs ! i) 1 = Inr (fat ! i)"
      "getitem (xs ! i) 4 = Inr (prot ! i)" "getitem (xs ! i) 6 = Inr (carbs ! i)"
      using apply_col_nth [OF cal] apply_col_nth [OF fat] apply_col_nth [OF prot]
        apply_col_nth [OF carbs] i len by simp_all
    ultimately show "extracted lit (df' ! i)"
      by (simp add: row extracted_def with_nutrition_def)
    show "raw_row.truncate (df' ! i) = df ! i"
      by (simp add: row with_nutrition_def raw_row.truncate_def)
  }
qed



lemma clean_columns_rows:
  assumes "clean_columns lit df = Inr df2"
  shows "length df2 = length df"
    and "i < length df \<Longrightarrow>
      \<exists>s g. clean_cell lit (steps (df ! i)) = Inr s
        \<and> clean_cell lit (ingredients (df ! i)) = Inr g
        \<and> df2 ! i = (df ! i)\<lparr>steps := s, ingredients := g\<rparr>"
proof -
  from assms obtain ss gs where
    ss: "apply_col (\<lambda>r. clean_cell lit (steps r)) df = Inr ss"
    and gs: "apply_col (\<lambda>r. clean_cell lit (ingredients r)) df = Inr gs"
    and df2: "df2 = map (\<lambda>(r, s, g). r\<lparr>steps := s, ingredients := g\<rparr>) (zip df (zip ss gs))"
    by (auto simp add: clean_columns_def split: sum.splits)
  have len: "length ss = length df" "length gs = length df"
    using ss gs by (simp_all add: apply_col_length)
  show "length df2 = length df" by (simp add: df2 len)
  assume i: "i < length df"
  then have "df2 ! i = (df ! i)\<lparr>steps := ss ! i, ingredients := gs ! i\<rparr>"
    by (simp add: df2 len)
  with apply_col_nth [OF ss i] apply_col_nth [OF gs i]
  show "\<exists>s g. clean_cell lit (steps (df ! i)) = Inr s
        \<and> clean_cell lit (ingredients (df ! i)) = Inr g
        \<and> df2 ! i = (df ! i)\<lparr>steps := s, ingredients := g\<rparr>"
    by blast
qed


lemma filter_by_flags:
  "map f xs = map Inr keep \<Longrightarrow> map fst (filter snd (zip xs keep)) = filter (\<lambda>x. f x = Inr True) xs"
proof (induction xs arbitrary: keep)
  case Nil
  then show ?case by simp
next
  case (Cons x xs)
  then obtain k ks where "keep = k # ks" by (cases keep) auto
  with Cons show ?case by auto
qed

lemma positive_calories_filter:
  "positive_calories df = Inr kept \<Longrightarrow> kept = filter (\<lambda>r. gt_zero (calories r) = Inr True) df"
  by (auto simp add: positive_calories_def apply_col_Inr_iff filter_by_flags split: sum.splits)

lemma clean_frame_steps:
  assumes "clean_frame lit df w = (Inr kept, w')"
  obtains df1 df2 where "nutrition_step lit df w = (Inr df1, w')"
    and "clean_columns lit df1 = Inr df2"
    and "kept = filter (\<lambda>r. gt_zero (calories r) = Inr True) (filter all_present df2)"
  using assms
  by (auto simp add: clean_frame_def dropna_required_def split: prod.splits sum.splits
      dest: positive_calories_filter)

subsection \<open>The strings of the concrete rows\<close>

lemma demo_parses:
  "parse_literal ''[100.0, 5.0, 2.0, 1.0, 3.0, 0.5, 10.0]''
     = Some (PList [PFloat 100, PFloat 5, PFloat 2, PFloat 1, PFloat 3, PFloat (1 / 2), PFloat 10])"
  "parse_literal ''[0.0, 5.0, 2.0, 1.0, 3.0, 0.5, 10.0]''
     = Some (PList [PFloat 0, PFloat 5, PFloat 2, PFloat 1, PFloat 3, PFloat (1 / 2), PFloat 10])"
  "parse_literal ''[250.5, 12.0, 0.0, 7.0, 30.0, 4.0, 8.0]''
     = Some (PList [PFloat (501 / 2), PFloat 12, PFloat 0, PFloat 7, PFloat 30, PFloat 4, PFloat 8])"
  "parse_literal ''['mix', 'bake']'' = Some (PList (map PStr [''mix'', ''bake'']))"
  "parse_literal ''['salt', 'water']'' = Some (PList (map PStr [''salt'', ''water'']))"
  "parse_literal ''['pour']'' = Some (PList (map PStr [''pour'']))"
  "parse_literal ''['water']'' = Some (PList (map PStr [''water'']))"
  "parse_literal ''['chop', 'boil']'' = Some (PList (map PStr [''chop'', ''boil'']))"
  "parse_literal ''['beef', 'salt']'' = Some (PList (map PStr [''beef'', ''salt'']))"
  by code_simp+

lemma clean_text_strs:
  "lit s = Inr (PList (map PStr ss)) \<Longrightarrow> clean_text lit s = Inr (join_strs '', '' ss)"
  by (simp add: clean_text_def str_join_def str_items_map_PStr)

lemma demo_reads:
  assumes "reads_literals lit"
  shows "lit ''[100.0, 5.0, 2.0, 1.0, 3.0, 0.5, 10.0]''
     = Inr (PList [PFloat 100, PFloat 5, PFloat 2, PFloat 1, PFloat 3, PFloat (1 / 2), PFloat 10])"
  "lit ''[0.0, 5.0, 2.0, 1.0, 3.0, 0.5, 10.0]''
     = Inr (PList [PFloat 0, PFloat 5, PFloat 2, PFloat 1, PFloat 3, PFloat (1 / 2), PFloat 10])"
  "lit ''[250.5, 12.0, 0.0, 7.0, 30.0, 4.0, 8.0]''
     = Inr (PList [PFloat (501 / 2), PFloat 12, PFloat 0, PFloat 7, PFloat 30, PFloat 4, PFloat 8])"
  "clean_text lit ''['mix', 'bake']'' = Inr ''mix, bake''"
  "clean_text lit ''['salt', 'water']'' = Inr ''salt, water''"
  "clean_text lit ''['pour']'' = Inr ''pour''"
  "clean_text lit ''['water']'' = Inr ''water''"
  "clean_text lit ''['chop', 'boil']'' = Inr ''chop, boil''"
  "clean_text lit ''['beef', 'salt']'' = Inr ''beef, salt''"
proof -
  have r: "\<And>s v. parse_literal s = Some v \<Longrightarrow> lit s = Inr v"
    using assms by (simp add: reads_literals_def)
  show "lit ''[100.0, 5.0, 2.0, 1.0, 3.0, 0.5, 10.0]''
     = Inr (PList [PFloat 100, PFloat 5, PFloat 2, PFloat 1, PFloat 3, PFloat (1 / 2), PFloat 10])"
    using r [OF demo_parses(1)] .
  show "lit ''[0.0, 5.0, 2.0, 1.0, 3.0, 0.5, 10.0]''
     = Inr (PList [PFloat 0, PFloat 5, PFloat 2, PFloat 1, PFloat 3, PFloat (1 / 2), PFloat 10])"
    using r [OF demo_parses(2)] .
  show "lit ''[250.5, 12.0, 0.0, 7.0, 30.0, 4.0, 8.0]''
     = Inr (PList [PFloat (501 / 2), PFloat 12, PFloat 0, PFloat 7, PFloat 30, PFloat 4, PFloat 8])"
    using r [OF demo_parses(3)] .
  show "clean_text lit ''['mix', 'bake']'' = Inr ''mix, bake''"
    using clean_text_strs [of lit "''['mix', 'bake']''" "[''mix'', ''bake'']"] r [OF demo_parses(4)] by simp
  show "clean_text lit ''['salt', 'water']'' = Inr ''salt, water''"
    using clean_text_strs [of lit "''['salt', 'water']''" "[''salt'', ''water'']"] r [OF demo_parses(5)] by simp
  show "clean_text lit ''['pour']'' = Inr ''pour''"
    using clean_text_strs [of lit "''['pour']''" "[''pour'']"] r [OF demo_parses(6)] by simp
  show "clean_text lit ''['water']'' = Inr ''water''"
    using clean_text_strs [of lit "''['water']''" "[''water'']"] r [OF demo_parses(7)] by simp
  show "clean_text lit ''['chop', 'boil']'' = Inr ''chop, boil''"
    using clean_text_strs [of lit "''['chop', 'boil']''" "[''chop'', ''boil'']"] r [OF demo_parses(8)] by simp
  show "clean_text lit ''['beef', 'salt']'' = Inr ''beef, salt''"
    using clean_text_strs [of lit "''['beef', 'salt']''" "[''beef'', ''salt'']"] r [OF demo_parses(9)] by simp
qed

lemma clean_frame_demo:
  assumes "reads_literals lit"
  shows "clean_frame lit [soup, water, stew] w = (Inr [soup_row, stew_row], w)"
  using demo_reads [OF assms]
  by (simp add: clean_frame_def nutrition_step_def parse_nutrition_def literal_eval_cell_def
      clean_columns_def clean_cell_def dropna_required_def all_present_def
      positive_calories_def with_nutrition_def soup_def water_def stew_def soup_row_def
      stew_row_def cleaned_def)

lemma first_pass_unlabelled:
  assumes "reads_literals lit"
  shows "parse_nutrition lit [soup, unlabelled, stew]
     = Inl (Exception ValueError ''malformed node or string: nan'')"
  using demo_reads [OF assms]
  by (simp add: parse_nutrition_def literal_eval_cell_def soup_def unlabelled_def stew_def)

lemma second_pass_unlabelled:
  assumes "reads_literals lit"
  shows "parse_nutrition lit (dropna_nutrition [soup, unlabelled, stew])
     = Inr [cleaned soup [PFloat 100, PFloat 5, PFloat 2, PFloat 1, PFloat 3, PFloat (1 / 2), PFloat 10]
              ''['mix', 'bake']'' ''['salt', 'water']'',
            cleaned stew [PFloat (501 / 2), PFloat 12, PFloat 0, PFloat 7, PFloat 30, PFloat 4, PFloat 8]
              ''['chop', 'boil']'' ''['beef', 'salt']'']"
  using demo_reads [OF assms]
  by (simp add: parse_nutrition_def literal_eval_cell_def dropna_nutrition_def with_nutrition_def
      cleaned_def soup_def unlabelled_def stew_def)

subsection \<open>Rows that pass every step\<close>

lemma length_filter_nth_cong:
  "length xs = length ys \<Longrightarrow> (\<And>i. i < length xs \<Longrightarrow> P (xs ! i) = Q (ys ! i)) \<Longrightarrow>
     length (filter P xs) = length (filter Q ys)"
proof (induction xs ys rule: list_induct2)
  case Nil
  then show ?case by simp
next
  case (Cons x xs y ys)
  have "P x = Q y" using Cons.prems [of 0] by simp
  moreover have "length (filter P xs) = length (filter Q ys)"
  proof (rule Cons.IH)
    fix i assume "i < length xs"
    then show "P (xs ! i) = Q (ys ! i)" using Cons.prems [of "Suc i"] by simp
  qed
  ultimately show ?case by simp
qed

lemma row_calories_SomeD:
  assumes "row_calories lit r = Some c"
  obtains x f p cb s g where
    "literal_eval_cell lit (nutrition r) = Inr x"
    "getitem x 0 = Inr c" "getitem x 1 = Inr f" "getitem x 4 = Inr p" "getitem x 6 = Inr cb"
    "name r \<noteq> None" "c \<noteq> PNone" "f \<noteq> PNone" "p \<noteq> PNone" "cb \<noteq> PNone"
    "clean_cell lit (steps r) = Inr (Some s)" "clean_cell lit (ingredients r) = Inr (Some g)"
  using assms
  by (auto simp add: row_calories_def cleans_def split: sum.splits if_splits option.splits)

lemma passing_rows_parse:
  assumes "\<forall>r \<in> set df. \<exists>c. row_calories lit r = Some c"
  shows "\<exists>df1. parse_nutrition lit df = Inr df1"
proof -
  have "\<forall>r \<in> set df. \<exists>x. literal_eval_cell lit (nutrition r) = Inr x"
    using assms by (meson row_calories_SomeD)
  then obtain xs where xs: "apply_col (\<lambda>r. literal_eval_cell lit (nutrition r)) df = Inr xs"
    using apply_col_succeeds [of df "\<lambda>r. literal_eval_cell lit (nutrition r)"] by blast
  have items: "\<exists>c f p cb. getitem x 0 = Inr c \<and> getitem x 1 = Inr f \<and> getitem x 4 = Inr p
      \<and> getitem x 6 = Inr cb" if "x \<in> set xs" for x
  proof -
    from that obtain i where i: "i < length xs" and x: "x = xs ! i"
      by (auto simp add: in_set_conv_nth)
    from i have i': "i < length df" using apply_col_length [OF xs] by simp
    then obtain c where c: "row_calories lit (df ! i) = Some c" using assms nth_mem by blast
    have "literal_eval_cell lit (nutrition (df ! i)) = Inr x"
      using apply_col_nth [OF xs i'] x by simp
    with c show ?thesis by (auto elim!: row_calories_SomeD)
  qed
  obtain cal where "apply_col (\<lambda>x. getitem x 0) xs = Inr cal"
    using apply_col_succeeds [of xs "\<lambda>x. getitem x 0"] items by blast
  moreover obtain fat where "apply_col (\<lambda>x. getitem x 1) xs = Inr fat"
    using apply_col_succeeds [of xs "\<lambda>x. getitem x 1"] items by blast
  moreover obtain prot where "apply_col (\<lambda>x. getitem x 4) xs = Inr prot"
    using apply_col_succeeds [of xs "\<lambda>x. getitem x 4"] items by blast
  moreover obtain carbs where "apply_col (\<lambda>x. getitem x 6) xs = Inr carbs"
    using apply_col_succeeds [of xs "\<lambda>x. getitem x 6"] items by blast
  ultimately show ?thesis using xs by (simp add: parse_nutrition_def)
qed

lemma passing_row_parsed:
  assumes df1: "parse_nutrition lit df = Inr df1" and i: "i < length df"
    and c: "row_calories lit (df ! i) = Some c"
  shows "calories (df1 ! i) = c \<and> fat_g (df1 ! i) \<noteq> PNone \<and> protein_g (df1 ! i) \<noteq> PNone
    \<and> carbs_g (df1 ! i) \<noteq> PNone \<and> name (df1 ! i) \<noteq> None
    \<and> (\<exists>s. clean_cell lit (steps (df1 ! i)) = Inr (Some s))
    \<and> (\<exists>g. clean_cell lit (ingredients (df1 ! i)) = Inr (Some g))"
proof -
  have e: "extracted lit (df1 ! i)" and t: "raw_row.truncate (df1 ! i) = df ! i"
    using parse_nutrition_rows(2,3) [OF df1 i] by simp_all
  from t have same: "name (df1 ! i) = name (df ! i)" "nutrition (df1 ! i) = nutrition (df ! i)"
    "steps (df1 ! i) = steps (df ! i)" "ingredients (df1 ! i) = ingredients (df ! i)"
    by (metis raw_row.truncate_def raw_row.select_convs)+
  from c e same show ?thesis
    by (auto simp add: extracted_def elim!: row_calories_SomeD split: sum.splits)
qed

lemma passing_rows_clean:
  assumes pass: "\<forall>r \<in> set df. \<exists>c b. row_calories lit r = Some c \<and> gt_zero c = Inr b"
  shows "\<exists>kept. clean_frame lit df w = (Inr kept, w)
     \<and> length kept = length (filter (positive_row lit) df)"
proof -
  have some: "\<forall>r \<in> set df. \<exists>c. row_calories lit r = Some c" using pass by blast
  then obtain df1 where df1: "parse_nutrition lit df = Inr df1"
    using passing_rows_parse by blast
  have len1: "length df1 = length df" using parse_nutrition_rows(1) [OF df1] .
  have step: "nutrition_step lit df w = (Inr df1, w)"
    by (simp add: nutrition_step_def df1)
  have row1: "\<exists>c b. row_calories lit (df ! i) = Some c \<and> gt_zero c = Inr b
      \<and> calories (df1 ! i) = c \<and> fat_g (df1 ! i) \<noteq> PNone \<and> protein_g (df1 ! i) \<noteq> PNone
      \<and> carbs_g (df1 ! i) \<noteq> PNone \<and> name (df1 ! i) \<noteq> None
      \<and> (\<exists>s. clean_cell lit (steps (df1 ! i)) = Inr (Some s))
      \<and> (\<exists>g. clean_cell lit (ingredients (df1 ! i)) = Inr (Some g))" if "i < length df" for i
  proof -
    from that pass obtain c b where "row_calories lit (df ! i) = Some c" "gt_zero c = Inr b"
      using nth_mem by blast
    with passing_row_parsed [OF df1 that] show ?thesis by blast
  qed
  have "\<forall>r \<in> set df1. \<exists>s. clean_cell lit (steps r) = Inr s"
    using row1 len1 by (metis in_set_conv_nth)
  then obtain ss where ss: "apply_col (\<lambda>r. clean_cell lit (steps r)) df1 = Inr ss"
    using apply_col_succeeds [of df1 "\<lambda>r. clean_cell lit (steps r)"] by blast
  have "\<forall>r \<in> set df1. \<exists>g. clean_cell lit (ingredients r) = Inr g"
    using row1 len1 by (metis in_set_conv_nth)
  then obtain gs where gs: "apply_col (\<lambda>r. clean_cell lit (ingredients r)) df1 = Inr gs"
    using apply_col_succeeds [of df1 "\<lambda>r. clean_cell lit (ingredients r)"] by blast
  obtain df2 where df2: "clean_columns lit df1 = Inr df2"
    using ss gs by (simp add: clean_columns_def)
  have len2: "length df2 = length df" using clean_columns_rows(1) [OF df2] len1 by simp
  have row2: "all_present (df2 ! i) \<and> (\<exists>c b. row_calories lit (df ! i) = Some c
      \<and> gt_zero c = Inr b \<and> calories (df2 ! i) = c)" if "i < length df" for i
  proof -
    from that have i1: "i < length df1" using len1 by simp
    from clean_columns_rows(2) [OF df2 i1] obtain s g where
      s: "clean_cell lit (steps (df1 ! i)) = Inr s"
      and g: "clean_cell lit (ingredients (df1 ! i)) = Inr g"
      and r: "df2 ! i = (df1 ! i)\<lparr>steps := s, ingredients := g\<rparr>" by blast
    from row1 [OF that] s g r show ?thesis
      by (auto simp add: all_present_def)
  qed
  have present: "filter all_present df2 = df2"
    using row2 len2 by (metis filter_True in_set_conv_nth)
  have "\<forall>r \<in> set df2. \<exists>b. gt_zero (calories r) = Inr b"
    using row2 len2 by (metis in_set_conv_nth)
  then obtain keep where "apply_col (\<lambda>r. gt_zero (calories r)) df2 = Inr keep"
    using apply_col_succeeds [of df2 "\<lambda>r. gt_zero (calories r)"] by blast
  then obtain kept where kept: "positive_calories df2 = Inr kept"
    by (simp add: positive_calories_def)
  have "kept = filter (\<lambda>r. gt_zero (calories r) = Inr True) df2"
    using positive_calories_filter [OF kept] .
  moreover have "length (filter (\<lambda>r. gt_zero (calories r) = Inr True) df2)
      = length (filter (positive_row lit) df)"
  proof (rule length_filter_nth_cong)
    show "length df2 = length df" by (rule len2)
    fix i assume "i < length df2"
    then have "i < length df" using len2 by simp
    from row2 [OF this]
    show "(gt_zero (calories (df2 ! i)) = Inr True) = positive_row lit (df ! i)"
      by (auto simp add: positive_row_def)
  qed
  moreover have "clean_frame lit df w = (Inr kept, w)"
    by (simp add: clean_frame_def step df2 dropna_required_def present kept)
  ultimately show ?thesis by simp
qed

subsection \<open>The positions of the nutrition values\<close>






subsection \<open>The postcondition of the Cleaner\<close>

lemma take_rows_subset: "take_rows df locs = Inr ys \<Longrightarrow> set ys \<subseteq> set df"
proof
  fix y assume a: "take_rows df locs = Inr ys" and y: "y \<in> set ys"
  let ?f = "\<lambda>i. if i < length df then Inr (df ! i)
                     else Inl (Exception IndexError ''indices are out-of-bounds'')"
  from a have ap: "apply_col ?f locs = Inr ys" by (simp add: take_rows_def)
  from y obtain k where k: "k < length ys" and yk: "y = ys ! k"
    by (auto simp add: in_set_conv_nth)
  from k have k': "k < length locs" using apply_col_length [OF ap] by simp
  from apply_col_nth [OF ap k'] have "?f (locs ! k) = Inr y" using yk by simp
  then show "y \<in> set df" by (auto split: if_splits)
qed

lemma sample_step_subset: "sample_step ch amb n df = Inr ys \<Longrightarrow> set ys \<subseteq> set df"
  by (auto simp add: sample_step_def df_sample_def split: if_splits dest: take_rows_subset)

lemma load_and_clean_data_steps:
  assumes "load_and_clean_data csv lit ch amb w = (Inr kept, w')"
  obtains df w2 df4 w3 where "csv = Inr df" and "clean_frame lit df w2 = (Inr df4, w3)"
    and "sample_step ch amb SAMPLE_SIZE df4 = Inr kept"
  using assms
  by (auto simp add: load_and_clean_data_def Let_def
      split: sum.splits exn.splits exc_class.splits prod.splits)

lemma clean_frame_kept:
  assumes "clean_frame lit df w = (Inr kept, w')" and "r \<in> set kept"
  shows "gt_zero (calories r) = Inr True \<and> all_present r"
proof -
  from assms(1) obtain df1 df2 where
    "kept = filter (\<lambda>r. gt_zero (calories r) = Inr True) (filter all_present df2)"
    by (rule clean_frame_steps)
  with assms(2) show ?thesis by simp
qed

lemma zero_row_not_positive: "zero_row lit r \<Longrightarrow> \<not> positive_row lit r"
  by (auto simp add: zero_row_def positive_row_def)

lemma three_rows_one_zero:
  assumes "length df = 3" and rows: "\<forall>r \<in> set df. positive_row lit r \<or> zero_row lit r"
    and one: "length (filter (zero_row lit) df) = 1"
  shows "\<exists>kept. clean_frame lit df w = (Inr kept, w) \<and> length kept = 2"
proof -
  have "\<forall>r \<in> set df. \<exists>c b. row_calories lit r = Some c \<and> gt_zero c = Inr b"
  proof
    fix r assume "r \<in> set df"
    with rows have "positive_row lit r \<or> zero_row lit r" by simp
    then show "\<exists>c b. row_calories lit r = Some c \<and> gt_zero c = Inr b"
      by (auto simp add: positive_row_def zero_row_def split: option.splits)
  qed
  from passing_rows_clean [OF this, of w] obtain kept where
    k: "clean_frame lit df w = (Inr kept, w)"
    and l: "length kept = length (filter (positive_row lit) df)" by blast
  have "filter (\<lambda>r. \<not> positive_row lit r) df = filter (zero_row lit) df"
    using rows zero_row_not_positive by (intro filter_cong) auto
  then have "length (filter (positive_row lit) df) + 1 = 3"
    using sum_length_filter_compl [of "positive_row lit" df] one assms(1) by simp
  with k l show ?thesis by simp
qed

text \<open>
  Claim C6. Every row the Cleaner returns has calories \<open>> 0\<close> and all of name, calories,
  protein, fat, carbs, steps and ingredients present, before sampling as well as in the
  frame \<open>load_and_clean_data\<close> returns; the rows that violate this are not in the output.
  In particular, for a frame of three rows of which exactly one has calories 0 and the
  others are valid, the Cleaner returns exactly two rows.
\<close>

theorem cleaner_postcondition:
  "(clean_frame lit df w = (Inr kept, w') \<and> r \<in> set kept \<longrightarrow>
      gt_zero (calories r) = Inr True \<and> name r \<noteq> None \<and> calories r \<noteq> PNone
      \<and> protein_g r \<noteq> PNone \<and> fat_g r \<noteq> PNone \<and> carbs_g r \<noteq> PNone \<and> steps r \<noteq> None
      \<and> ingredients r \<noteq> None)
   \<and> (load_and_clean_data csv lit ch amb w = (Inr kept, w') \<and> r \<in> set kept \<longrightarrow>
      gt_zero (calories r) = Inr True \<and> name r \<noteq> None \<and> calories r \<noteq> PNone
      \<and> protein_g r \<noteq> PNone \<and> fat_g r \<noteq> PNone \<and> carbs_g r \<noteq> PNone \<and> steps r \<noteq> None
      \<and> ingredients r \<noteq> None)
   \<and> (length df = 3 \<and> (\<forall>r \<in> set df. positive_row lit r \<or> zero_row lit r)
       \<and> length (filter (zero_row lit) df) = 1 \<longrightarrow>
      (\<exists>kept. clean_frame lit df w = (Inr kept, w) \<and> length kept = 2))"
proof -
  have p1: "gt_zero (calories r) = Inr True \<and> all_present r"
    if "clean_frame lit df w = (Inr kept, w')" "r \<in> set kept"
    using that by (rule clean_frame_kept)
  have p2: "gt_zero (calories r) = Inr True \<and> all_present r"
    if a: "load_and_clean_data csv lit ch amb w = (Inr kept, w')" and r: "r \<in> set kept"
  proof -
    from a obtain df0 w2 df4 w3 where c: "clean_frame lit df0 w2 = (Inr df4, w3)"
      and s: "sample_step ch amb SAMPLE_SIZE df4 = Inr kept"
      by (rule load_and_clean_data_steps)
    from sample_step_subset [OF s] r have "r \<in> set df4" by blast
    with c show ?thesis by (rule clean_frame_kept)
  qed
  have p3: "\<exists>kept. clean_frame lit df w = (Inr kept, w) \<and> length kept = 2"
    if "length df = 3" "\<forall>r \<in> set df. positive_row lit r \<or> zero_row lit r"
      "length (filter (zero_row lit) df) = 1"
    using that by (rule three_rows_one_zero)
  from p1 p2 p3 show ?thesis unfolding all_present_def by blast
qed

lemma load_demo:
  assumes "reads_literals lit"
  shows "fst (load_and_clean_data (Inr [soup, water, stew]) lit ch amb w) = Inr [soup_row, stew_row]"
  by (simp add: load_and_clean_data_def Let_def clean_frame_demo [OF assms] sample_step_def
      SAMPLE_SIZE_def)

lemma demo_rows:
  assumes "reads_literals lit"
  shows "positive_row lit soup" "zero_row lit water" "positive_row lit stew"
  using demo_reads [OF assms]
  by (simp_all add: positive_row_def zero_row_def row_calories_def literal_eval_cell_def
      cleans_def clean_cell_def soup_def water_def stew_def)

text \<open>The frame of \<open>soup\<close>, \<open>water\<close> (calories 0.0) and \<open>stew\<close>.\<close>

theorem cleaner_postcondition_witness:
  "clean_frame fragment_eval [soup, water, stew] empty_world
     = (Inr [soup_row, stew_row], empty_world)
   \<and> load_and_clean_data (Inr [soup, water, stew]) fragment_eval first_positions (Ambient 0)
         empty_world
       = (Inr [soup_row, stew_row],
          snd (load_and_clean_data (Inr [soup, water, stew]) fragment_eval first_positions
                 (Ambient 0) empty_world))
   \<and> soup_row \<in> set [soup_row, stew_row]
   \<and> gt_zero (calories soup_row) = Inr True \<and> name soup_row \<noteq> None
   \<and> ingredients soup_row \<noteq> None
   \<and> length [soup, water, stew] = 3
   \<and> positive_row fragment_eval soup \<and> zero_row fragment_eval water
   \<and> positive_row fragment_eval stew
   \<and> length (filter (zero_row fragment_eval) [soup, water, stew]) = 1
   \<and> (\<exists>kept. clean_frame fragment_eval [soup, water, stew] empty_world = (Inr kept, empty_world)
         \<and> length kept = 2)"
proof -
  note rl = reads_literals_fragment_eval
  let ?run = "load_and_clean_data (Inr [soup, water, stew]) fragment_eval first_positions
                 (Ambient 0) empty_world"
  have a: "clean_frame fragment_eval [soup, water, stew] empty_world
     = (Inr [soup_row, stew_row], empty_world)"
    by (rule clean_frame_demo [OF rl])
  have b: "?run = (Inr [soup_row, stew_row], snd ?run)"
    using load_demo [OF rl] by (metis prod.collapse)
  have z: "\<not> zero_row fragment_eval soup" "\<not> zero_row fragment_eval stew"
    using demo_rows [OF rl] zero_row_not_positive by blast+
  from cleaner_postcondition [where csv = "Inr [soup, water, stew]" and lit = fragment_eval
      and ch = first_positions and amb = "Ambient 0" and w = empty_world
      and kept = "[soup_row, stew_row]" and w' = "snd ?run" and r = soup_row] b
  have c: "gt_zero (calories soup_row) = Inr True \<and> name soup_row \<noteq> None
      \<and> ingredients soup_row \<noteq> None"
    by simp
  show ?thesis
    using a b c z demo_rows [OF rl]
      cleaner_postcondition [of fragment_eval "[soup, water, stew]" empty_world
        "[soup_row, stew_row]" empty_world soup_row]
    by simp
qed

subsection \<open>The fallback of the nutrition step\<close>

lemma parse_nutrition_fails:
  assumes "r \<in> set df" and "literal_eval_cell lit (nutrition r) = Inl e"
  shows "\<exists>e'. parse_nutrition lit df = Inl e'"
proof -
  from apply_col_fails [of r df "\<lambda>r. literal_eval_cell lit (nutrition r)" e] assms
  obtain e' where "apply_col (\<lambda>r. literal_eval_cell lit (nutrition r)) df = Inl e'" by blast
  then show ?thesis by (simp add: parse_nutrition_def)
qed

lemma unparsable_row_fails:
  assumes r: "r \<in> set df" and s: "nutrition r = Some s" and e: "lit s = Inl e"
  shows "\<exists>e'. fst (clean_frame lit df w) = Inl e'"
proof -
  have cell: "literal_eval_cell lit (nutrition r) = Inl e"
    using s e by (simp add: literal_eval_cell_def)
  from parse_nutrition_fails [OF r cell] obtain e1 where e1: "parse_nutrition lit df = Inl e1"
    by blast
  have "r \<in> set (dropna_nutrition df)" using r s by (simp add: dropna_nutrition_def)
  from parse_nutrition_fails [OF this cell] obtain e2 where
    e2: "parse_nutrition lit (dropna_nutrition df) = Inl e2" by blast
  show ?thesis
    using e1 e2 by (cases e1) (simp_all add: clean_frame_def nutrition_step_def)
qed

lemma retried_rows:
  assumes "parse_nutrition lit (filter (\<lambda>r. nutrition r \<noteq> None) df) = Inr df1"
  shows "map raw_row.truncate df1 = filter (\<lambda>r. nutrition r \<noteq> None) df"
proof (rule nth_equalityI)
  show "length (map raw_row.truncate df1) = length (filter (\<lambda>r. nutrition r \<noteq> None) df)"
    using parse_nutrition_rows(1) [OF assms] by simp
next
  fix i assume i: "i < length (map raw_row.truncate df1)"
  then have "i < length (filter (\<lambda>r. nutrition r \<noteq> None) df)"
    using parse_nutrition_rows(1) [OF assms] by simp
  from parse_nutrition_rows(3) [OF assms this]
  show "map raw_row.truncate df1 ! i = filter (\<lambda>r. nutrition r \<noteq> None) df ! i"
    using i by simp
qed

lemma parsesD:
  assumes "parses lit r"
  obtains x c f p cb where "literal_eval_cell lit (nutrition r) = Inr x"
    "getitem x 0 = Inr c" "getitem x 1 = Inr f" "getitem x 4 = Inr p" "getitem x 6 = Inr cb"
  using assms by (auto simp add: parses_def split: sum.splits)

text \<open>The statements of step 2 succeed on a frame all of whose rows parse.\<close>

lemma parsing_rows_parse:
  assumes "\<forall>r \<in> set df. parses lit r"
  shows "\<exists>df1. parse_nutrition lit df = Inr df1"
proof -
  have "\<forall>r \<in> set df. \<exists>x. literal_eval_cell lit (nutrition r) = Inr x"
    using assms by (meson parsesD)
  then obtain xs where xs: "apply_col (\<lambda>r. literal_eval_cell lit (nutrition r)) df = Inr xs"
    using apply_col_succeeds [of df "\<lambda>r. literal_eval_cell lit (nutrition r)"] by blast
  have items: "\<exists>c f p cb. getitem x 0 = Inr c \<and> getitem x 1 = Inr f \<and> getitem x 4 = Inr p
      \<and> getitem x 6 = Inr cb" if "x \<in> set xs" for x
  proof -
    from that obtain i where i: "i < length xs" and x: "x = xs ! i"
      by (auto simp add: in_set_conv_nth)
    from i have i': "i < length df" using apply_col_length [OF xs] by simp
    then have p: "parses lit (df ! i)" using assms nth_mem by blast
    have "literal_eval_cell lit (nutrition (df ! i)) = Inr x"
      using apply_col_nth [OF xs i'] x by simp
    with p show ?thesis by (auto elim!: parsesD)
  qed
  obtain cal where "apply_col (\<lambda>x. getitem x 0) xs = Inr cal"
    using apply_col_succeeds [of xs "\<lambda>x. getitem x 0"] items by blast
  moreover obtain fat where "apply_col (\<lambda>x. getitem x 1) xs = Inr fat"
    using apply_col_succeeds [of xs "\<lambda>x. getitem x 1"] items by blast
  moreover obtain prot where "apply_col (\<lambda>x. getitem x 4) xs = Inr prot"
    using apply_col_succeeds [of xs "\<lambda>x. getitem x 4"] items by blast
  moreover obtain carbs where "apply_col (\<lambda>x. getitem x 6) xs = Inr carbs"
    using apply_col_succeeds [of xs "\<lambda>x. getitem x 6"] items by blast
  ultimately show ?thesis using xs by (simp add: parse_nutrition_def)
qed

text \<open>
  Claim C5. If the first pass over the nutrition column raises, the Cleaner prints the
  error and runs the parse once more over the rows whose nutrition cell is present, and
  over those only: the result of that second pass is the result of the step. When every
  row with a nutrition cell parses, the second pass succeeds and the frame it returns
  holds exactly those rows, in order, so that the rows without a nutrition cell are the ones
  dropped. A failure of the second pass is the failure of the Cleaner. The fallback is
  global: a row whose nutrition string does not parse makes the Cleaner fail rather than
  being skipped.
\<close>

theorem nutrition_fallback:
  "(parse_nutrition lit df = Inl (Exception c msg) \<longrightarrow>
      nutrition_step lit df w
        = (parse_nutrition lit (filter (\<lambda>r. nutrition r \<noteq> None) df),
           w\<lparr>out := out w @ [''Error parsing nutrition column: '' @ msg, ''Skipping bad rows.'']\<rparr>))
   \<and> (parse_nutrition lit df = Inl (Exception c msg)
       \<and> (\<forall>r \<in> set df. nutrition r \<noteq> None \<longrightarrow> parses lit r) \<longrightarrow>
        (\<exists>df1. nutrition_step lit df w
                 = (Inr df1,
                    w\<lparr>out := out w @ [''Error parsing nutrition column: '' @ msg,
                                       ''Skipping bad rows.'']\<rparr>)
           \<and> map raw_row.truncate df1 = filter (\<lambda>r. nutrition r \<noteq> None) df))
   \<and> (parse_nutrition lit df = Inl (Exception c msg)
       \<and> parse_nutrition lit (filter (\<lambda>r. nutrition r \<noteq> None) df) = Inl e \<longrightarrow>
        fst (clean_frame lit df w) = Inl e)
   \<and> (r \<in> set df \<and> nutrition r = Some s \<and> lit s = Inl e' \<longrightarrow>
        (\<exists>e''. fst (clean_frame lit df w) = Inl e''))"
proof -
  let ?kept = "filter (\<lambda>r. nutrition r \<noteq> None) df"
  let ?w = "w\<lparr>out := out w @ [''Error parsing nutrition column: '' @ msg,
                               ''Skipping bad rows.'']\<rparr>"
  have p1: "nutrition_step lit df w = (parse_nutrition lit ?kept, ?w)"
    if "parse_nutrition lit df = Inl (Exception c msg)"
    using that by (simp add: nutrition_step_def dropna_nutrition_def print_def)
  have p2: "\<exists>df1. nutrition_step lit df w = (Inr df1, ?w) \<and> map raw_row.truncate df1 = ?kept"
    if h: "parse_nutrition lit df = Inl (Exception c msg)"
      and ok: "\<forall>r \<in> set df. nutrition r \<noteq> None \<longrightarrow> parses lit r"
  proof -
    from ok have "\<forall>r \<in> set ?kept. parses lit r" by simp
    from parsing_rows_parse [OF this] obtain df1 where
      df1: "parse_nutrition lit ?kept = Inr df1" by blast
    from p1 [OF h] df1 retried_rows [OF df1] show ?thesis by simp
  qed
  have p3: "fst (clean_frame lit df w) = Inl e"
    if "parse_nutrition lit df = Inl (Exception c msg)" "parse_nutrition lit ?kept = Inl e"
    using that p1 by (simp add: clean_frame_def)
  have p4: "\<exists>e''. fst (clean_frame lit df w) = Inl e''"
    if "r \<in> set df" "nutrition r = Some s" "lit s = Inl e'"
    using that by (rule unparsable_row_fails)
  from p1 p2 p3 p4 show ?thesis by blast
qed

lemma parse_question: "parse_literal ''?'' = None"
  by code_simp

lemma garbled_passes:
  assumes "reads_literals lit" and "lit ''?'' = Inl e"
  shows "parse_nutrition lit [soup, garbled, stew] = Inl e"
    and "parse_nutrition lit (filter (\<lambda>r. nutrition r \<noteq> None) [soup, garbled, stew]) = Inl e"
  using demo_reads [OF assms(1)] assms(2)
  by (simp_all add: parse_nutrition_def literal_eval_cell_def soup_def garbled_def stew_def)

lemma demo_parses_rows:
  assumes "reads_literals lit"
  shows "parses lit soup" "parses lit stew"
  using demo_reads [OF assms]
  by (simp_all add: parses_def literal_eval_cell_def soup_def stew_def)

lemma retry_unlabelled:
  assumes "reads_literals lit"
  shows "fst (nutrition_step lit [soup, unlabelled, stew] w)
     = Inr [cleaned soup [PFloat 100, PFloat 5, PFloat 2, PFloat 1, PFloat 3, PFloat (1 / 2), PFloat 10]
              ''['mix', 'bake']'' ''['salt', 'water']'',
            cleaned stew [PFloat (501 / 2), PFloat 12, PFloat 0, PFloat 7, PFloat 30, PFloat 4, PFloat 8]
              ''['chop', 'boil']'' ''['beef', 'salt']'']"
  using first_pass_unlabelled [OF assms] second_pass_unlabelled [OF assms]
  by (simp add: nutrition_step_def)

text \<open>
  A frame with a row without a nutrition cell, on which the second pass succeeds and
  returns the two other rows, and a frame with a string that Python does not parse, on
  which both passes and the Cleaner fail.
\<close>

theorem nutrition_fallback_witness:
  "parse_nutrition fragment_eval [soup, unlabelled, stew]
     = Inl (Exception ValueError ''malformed node or string: nan'')
   \<and> nutrition soup \<noteq> None \<and> parses fragment_eval soup \<and> nutrition unlabelled = None
   \<and> nutrition stew \<noteq> None \<and> parses fragment_eval stew
   \<and> filter (\<lambda>r. nutrition r \<noteq> None) [soup, unlabelled, stew] = [soup, stew]
   \<and> fst (nutrition_step fragment_eval [soup, unlabelled, stew] empty_world)
       = Inr [cleaned soup
                [PFloat 100, PFloat 5, PFloat 2, PFloat 1, PFloat 3, PFloat (1 / 2), PFloat 10]
                ''['mix', 'bake']'' ''['salt', 'water']'',
              cleaned stew
                [PFloat (501 / 2), PFloat 12, PFloat 0, PFloat 7, PFloat 30, PFloat 4, PFloat 8]
                ''['chop', 'boil']'' ''['beef', 'salt']'']
   \<and> out (snd (nutrition_step fragment_eval [soup, unlabelled, stew] empty_world))
       = [''Error parsing nutrition column: malformed node or string: nan'',
          ''Skipping bad rows.'']
   \<and> (\<exists>df1. nutrition_step fragment_eval [soup, unlabelled, stew] empty_world
                = (Inr df1,
                   empty_world\<lparr>out := out empty_world
                      @ [''Error parsing nutrition column: '' @ ''malformed node or string: nan'',
                         ''Skipping bad rows.'']\<rparr>)
          \<and> map raw_row.truncate df1 = [soup, stew])
   \<and> parse_nutrition fragment_eval [soup, garbled, stew]
       = Inl (Exception SyntaxError ''invalid syntax'')
   \<and> parse_nutrition fragment_eval (filter (\<lambda>r. nutrition r \<noteq> None) [soup, garbled, stew])
       = Inl (Exception SyntaxError ''invalid syntax'')
   \<and> fst (clean_frame fragment_eval [soup, garbled, stew] empty_world)
       = Inl (Exception SyntaxError ''invalid syntax'')
   \<and> garbled \<in> set [soup, garbled, stew] \<and> nutrition garbled = Some ''?''
   \<and> fragment_eval ''?'' = Inl (Exception SyntaxError ''invalid syntax'')
   \<and> (\<exists>e''. fst (clean_frame fragment_eval [soup, garbled, stew] empty_world) = Inl e'')"
proof -
  note rl = reads_literals_fragment_eval
  let ?df = "[soup, unlabelled, stew]"
  have g: "nutrition garbled = Some ''?''"
    "fragment_eval ''?'' = Inl (Exception SyntaxError ''invalid syntax'')"
    using parse_question by (simp_all add: garbled_def fragment_eval_def)
  have n: "nutrition soup \<noteq> None" "nutrition unlabelled = None" "nutrition stew \<noteq> None"
    by (simp_all add: soup_def unlabelled_def stew_def)
  have f: "filter (\<lambda>r. nutrition r \<noteq> None) ?df = [soup, stew]"
    using n by simp
  have ok: "\<forall>r \<in> set ?df. nutrition r \<noteq> None \<longrightarrow> parses fragment_eval r"
    using n demo_parses_rows [OF rl] by simp
  note fp = first_pass_unlabelled [OF rl]
  note inst = nutrition_fallback [where lit = fragment_eval and df = ?df and c = ValueError
      and msg = "''malformed node or string: nan''" and w = empty_world]
  from inst fp have o: "out (snd (nutrition_step fragment_eval ?df empty_world))
       = [''Error parsing nutrition column: malformed node or string: nan'',
          ''Skipping bad rows.'']"
    by (simp add: empty_world_def)
  from inst fp ok f
  have r: "\<exists>df1. nutrition_step fragment_eval ?df empty_world
                = (Inr df1,
                   empty_world\<lparr>out := out empty_world
                      @ [''Error parsing nutrition column: '' @ ''malformed node or string: nan'',
                         ''Skipping bad rows.'']\<rparr>)
          \<and> map raw_row.truncate df1 = [soup, stew]"
    by (metis (no_types, lifting))
  note gp = garbled_passes [OF rl g(2)]
  from nutrition_fallback [where lit = fragment_eval and df = "[soup, garbled, stew]"
      and c = SyntaxError and msg = "''invalid syntax''" and w = empty_world
      and e = "Exception SyntaxError ''invalid syntax''"] gp
  have h: "fst (clean_frame fragment_eval [soup, garbled, stew] empty_world)
       = Inl (Exception SyntaxError ''invalid syntax'')"
    by blast
  from nutrition_fallback [where lit = fragment_eval and df = "[soup, garbled, stew]"
      and w = empty_world and r = garbled and s = "''?''"
      and e' = "Exception SyntaxError ''invalid syntax''"] g
  have k: "\<exists>e''. fst (clean_frame fragment_eval [soup, garbled, stew] empty_world) = Inl e''"
    by simp
  from fp n demo_parses_rows [OF rl] f retry_unlabelled [OF rl] o r gp h g k
  show ?thesis by simp
qed

section \<open>Properties of the Sampler\<close>

lemma take_rows_in_range:
  "\<forall>i \<in> set locs. i < length df \<Longrightarrow> take_rows df locs = Inr (map ((!) df) locs)"
  unfolding take_rows_def by (induction locs) simp_all

lemma mset_rows_subset:
  assumes "distinct locs" and "\<forall>i \<in> set locs. i < length df"
  shows "mset (map ((!) df) locs) \<subseteq># mset df"
proof -
  have "mset locs = mset_set (set locs)" using assms(1) by (simp add: mset_set_set)
  also have "\<dots> \<subseteq># mset_set {0..<length df}"
    using assms(2) by (intro subset_imp_msubset_mset_set) auto
  finally have "image_mset ((!) df) (mset locs) \<subseteq># image_mset ((!) df) (mset_set {0..<length df})"
    by (rule image_mset_subseteq_mono)
  moreover have "image_mset ((!) df) (mset_set {0..<length df}) = mset df"
    by (metis map_nth mset_map mset_upt)
  ultimately show ?thesis by simp
qed

lemma first_positions_draws: "draws_without_replacement first_positions"
  by (auto simp add: draws_without_replacement_def first_positions_def)

text \<open>
  Claim C9. For a frame and a target size \<open>N\<close>: if the frame has more than \<open>N\<close> rows,
  the Sampler returns the rows at the positions drawn by the generator seeded with 42,
  which are exactly \<open>N\<close> rows and a subset of the frame; otherwise it returns all rows.
  The generator of the process plays no part: two runs on the same file, whatever the
  state of that generator in each, select the same rows.
\<close>

theorem sampler_fixed_seed:
  "(draws_without_replacement ch \<and> N < length df \<longrightarrow>
      sample_step ch amb N df = Inr (map ((!) df) (ch (Seeded 42) (length df) N))
      \<and> length (map ((!) df) (ch (Seeded 42) (length df) N)) = N
      \<and> mset (map ((!) df) (ch (Seeded 42) (length df) N)) \<subseteq># mset df)
   \<and> (length df \<le> N \<longrightarrow> sample_step ch amb N df = Inr df)
   \<and> sample_step ch amb N df = sample_step ch amb' N df
   \<and> load_and_clean_data csv lit ch amb w = load_and_clean_data csv lit ch amb' w"
proof -
  have p1: "sample_step ch amb N df = Inr (map ((!) df) (ch (Seeded 42) (length df) N))
      \<and> length (map ((!) df) (ch (Seeded 42) (length df) N)) = N
      \<and> mset (map ((!) df) (ch (Seeded 42) (length df) N)) \<subseteq># mset df"
    if c: "draws_without_replacement ch" and n: "N < length df"
  proof -
    let ?locs = "ch (Seeded 42) (length df) N"
    from n have "N \<le> length df" by simp
    with c have l: "length ?locs = N" and d: "distinct ?locs"
      and b: "\<forall>i \<in> set ?locs. i < length df"
      unfolding draws_without_replacement_def by blast+
    have "sample_step ch amb N df = take_rows df ?locs"
      using n by (simp add: sample_step_def df_sample_def)
    with take_rows_in_range [OF b] mset_rows_subset [OF d b] l show ?thesis by simp
  qed
  have p2: "sample_step ch amb N df = Inr df" if "length df \<le> N"
    using that by (simp add: sample_step_def)
  have p3: "sample_step ch amb n xs = sample_step ch amb' n xs" for n and xs :: "'b list"
    by (simp add: sample_step_def df_sample_def)
  have p4: "load_and_clean_data csv lit ch amb w = load_and_clean_data csv lit ch amb' w"
    unfolding load_and_clean_data_def sample_step_def df_sample_def option.case ..
  from p1 p2 p3 [of N df] p4 show ?thesis by blast
qed

text \<open>Two of three rows, and two of two rows, under the draw \<open>first_positions\<close>.\<close>

theorem sampler_fixed_seed_witness:
  "draws_without_replacement first_positions \<and> 2 < length [soup, water, stew]
   \<and> sample_step first_positions (Ambient 0) 2 [soup, water, stew] = Inr [soup, water]
   \<and> mset [soup, water] \<subseteq># mset [soup, water, stew]
   \<and> length [soup, water] \<le> (2::nat)
   \<and> sample_step first_positions (Ambient 0) 2 [soup, water] = Inr [soup, water]
   \<and> sample_step first_positions (Ambient 0) 2 [soup, water, stew]
       = sample_step first_positions (Ambient 7) 2 [soup, water, stew]"
proof -
  have u: "[0..<2] = [0, Suc 0]" by (simp add: upt_rec)
  have e: "sample_step first_positions a 2 [soup, water, stew] = Inr [soup, water]" for a
    by (simp add: sample_step_def df_sample_def take_rows_def first_positions_def u)
  from sampler_fixed_seed [of first_positions 2 "[soup, water, stew]" "Ambient 0" "Ambient 7"]
    first_positions_draws e
  have "mset [soup, water] \<subseteq># mset [soup, water, stew]
    \<and> sample_step first_positions (Ambient 0) 2 [soup, water, stew]
       = sample_step first_positions (Ambient 7) 2 [soup, water, stew]"
    by (simp add: first_positions_def u)
  moreover from sampler_fixed_seed [of first_positions 2 "[soup, water]" "Ambient 0"]
  have "sample_step first_positions (Ambient 0) 2 [soup, water] = Inr [soup, water]"
    by simp
  ultimately show ?thesis using first_positions_draws e by simp
qed

section \<open>Properties of the Batch Loader\<close>

subsection \<open>The batches\<close>

lemma range_steps_concat:
  "n = length df \<Longrightarrow> 0 < b \<Longrightarrow>
     concat (map (\<lambda>i. iloc df i (i + b)) (range_steps k n b)) = drop k df"
proof (induction k n b rule: range_steps.induct)
  case (1 i n b)
  show ?case
  proof (cases "i < n")
    case True
    with 1 have "concat (map (\<lambda>i. iloc df i (i + b)) (range_steps (i + b) n b)) = drop (i + b) df"
      by simp
    moreover have "take b (drop i df) @ drop (i + b) df = drop i df"
      by (metis add.commute append_take_drop_id drop_drop)
    ultimately show ?thesis
      using True 1(3) by (subst range_steps.simps) (simp add: iloc_def)
  next
    case False
    with 1(2) show ?thesis by (subst range_steps.simps) simp
  qed
qed

lemma range_steps_sizes:
  "n = length df \<Longrightarrow> 0 < b \<Longrightarrow>
     map (\<lambda>i. length (iloc df i (i + b))) (range_steps k n b)
       = replicate ((n - k) div b) b @ (if (n - k) mod b = 0 then [] else [(n - k) mod b])"
proof (induction k n b rule: range_steps.induct)
  case (1 i n b)
  show ?case
  proof (cases "i < n")
    case False
    then show ?thesis by (subst range_steps.simps) simp
  next
    case True
    with 1 have IH: "map (\<lambda>i. length (iloc df i (i + b))) (range_steps (i + b) n b)
       = replicate ((n - (i + b)) div b) b
         @ (if (n - (i + b)) mod b = 0 then [] else [(n - (i + b)) mod b])"
      by simp
    have here: "length (iloc df i (i + b)) = min b (n - i)"
      using 1(2) by (simp add: iloc_def min.commute)
    show ?thesis
    proof (cases "b \<le> n - i")
      case True
      then have d: "(n - i) div b = Suc ((n - (i + b)) div b)"
        and m: "(n - i) mod b = (n - (i + b)) mod b"
        using 1(3) by (simp_all add: le_div_geq le_mod_geq)
      show ?thesis
        using \<open>i < n\<close> 1(3) True IH here
        by (subst range_steps.simps) (simp add: d m)
    next
      case False
      then have "n - (i + b) = 0" "(n - i) div b = 0" "(n - i) mod b = n - i" "n - i \<noteq> 0"
        using \<open>i < n\<close> by simp_all
      then show ?thesis
        using \<open>i < n\<close> 1(3) False IH here
        by (subst range_steps.simps) simp
    qed
  qed
qed

lemma BATCH_SIZE_pos: "0 < BATCH_SIZE"
  by (simp add: BATCH_SIZE_def)

lemma concat_batches: "concat (batches df) = df"
  using range_steps_concat [of "length df" df BATCH_SIZE 0] BATCH_SIZE_pos
  by (simp add: batches_def)

lemma sizes_batches:
  "map length (batches df)
     = replicate (length df div BATCH_SIZE) BATCH_SIZE
       @ (if length df mod BATCH_SIZE = 0 then [] else [length df mod BATCH_SIZE])"
  using range_steps_sizes [of "length df" df BATCH_SIZE 0] BATCH_SIZE_pos
  by (simp add: batches_def comp_def)

lemma full_batches: "b \<in> set (butlast (batches df)) \<Longrightarrow> length b = BATCH_SIZE"
proof -
  assume "b \<in> set (butlast (batches df))"
  then have "length b \<in> set (butlast (map length (batches df)))"
    by (simp add: map_butlast [symmetric])
  then show ?thesis
    by (auto simp add: sizes_batches butlast_append split: if_splits dest: in_set_butlastD)
qed

lemma bounded_batches: "b \<in> set (batches df) \<Longrightarrow> 0 < length b \<and> length b \<le> BATCH_SIZE"
proof -
  assume "b \<in> set (batches df)"
  then have "length b \<in> set (map length (batches df))" by simp
  then show ?thesis
    using BATCH_SIZE_pos by (auto simp add: sizes_batches split: if_splits)
qed

lemma sizes_2500: "length df = 2500 \<Longrightarrow> map length (batches df) = [1000, 1000, 500]"
  by (simp add: sizes_batches BATCH_SIZE_def numeral_2_eq_2)

subsection \<open>The loop\<close>




text \<open>A run of the loop that ends normally committed every batch, in order.\<close>

lemma load_batches_ok:
  "load_batches model commit df starts w = (Inr (), w') \<Longrightarrow>
     db w' = db w @ map (\<lambda>i. Committed (batch_recipes model (iloc df i (i + BATCH_SIZE)))) starts
     \<and> out w' = out w
     \<and> (\<forall>i \<in> set starts. \<exists>vs. model (map text_to_embed (iloc df i (i + BATCH_SIZE))) = Inr vs)"
proof (induction starts arbitrary: w)
  case Nil
  then show ?case by simp
next
  case (Cons i starts)
  let ?b = "iloc df i (i + BATCH_SIZE)"
  from Cons.prems obtain vs where vs: "model (map text_to_embed ?b) = Inr vs"
    by (auto simp add: Let_def split: sum.splits)
  let ?objs = "map make_recipe (zip ?b vs)"
  from Cons.prems vs have c: "commit (db w) ?objs = None"
    by (auto simp add: Let_def split: option.splits)
  from Cons.prems vs c have
    "load_batches model commit df starts (w\<lparr>db := db w @ [Committed ?objs]\<rparr>) = (Inr (), w')"
    by (simp add: Let_def)
  from Cons.IH [OF this] vs show ?case
    by (simp add: batch_recipes_def)
qed


lemma load_batches_succeeds:
  assumes "\<forall>texts. \<exists>vs. model texts = Inr vs" and "\<forall>h b. commit h b = None"
  shows "\<exists>w'. load_batches model commit df starts w = (Inr (), w')"
proof (induction starts arbitrary: w)
  case Nil
  then show ?case by simp
next
  case (Cons i starts)
  from assms(1) obtain vs where
    "model (map text_to_embed (iloc df i (i + BATCH_SIZE))) = Inr vs" by blast
  with assms(2) Cons.IH show ?case by (simp add: Let_def)
qed

lemma length_batch_recipes:
  "one_vector_per_text model \<Longrightarrow> model (map text_to_embed b) = Inr vs \<Longrightarrow>
     length (batch_recipes model b) = length b"
  by (auto simp add: one_vector_per_text_def batch_recipes_def)


lemma loader_steps:
  "create_embeddings_and_load model commit df w = (r, w') \<Longrightarrow>
     load_batches model commit df (range_steps 0 (length df) BATCH_SIZE)
       (print (''Starting to embed and load '' @ str_nat (length df)
               @ '' recipes in batches of '' @ str_nat BATCH_SIZE @ ''...'') w)
     = (r, if r = Inr () then w'\<lparr>out := butlast (out w')\<rparr> else w')"
  using BATCH_SIZE_pos
  by (auto simp add: create_embeddings_and_load_def py_range_def Let_def print_def
      split: sum.splits prod.splits)

subsection \<open>Persisted records and transactions\<close>

lemma loader_ok:
  assumes "create_embeddings_and_load model commit df w = (Inr (), w')"
  shows "db w' = db w @ map (\<lambda>b. Committed (batch_recipes model b)) (batches df)"
    and "\<forall>b \<in> set (batches df). \<exists>vs. model (map text_to_embed b) = Inr vs"
proof -
  let ?starts = "range_steps 0 (length df) BATCH_SIZE"
  let ?w1 = "print (''Starting to embed and load '' @ str_nat (length df)
               @ '' recipes in batches of '' @ str_nat BATCH_SIZE @ ''...'') w"
  from loader_steps [OF assms]
  have lb: "load_batches model commit df ?starts ?w1 = (Inr (), w'\<lparr>out := butlast (out w')\<rparr>)"
    by simp
  from load_batches_ok [OF lb]
  have d: "db (w'\<lparr>out := butlast (out w')\<rparr>)
      = db ?w1 @ map (\<lambda>i. Committed (batch_recipes model (iloc df i (i + BATCH_SIZE)))) ?starts"
    and m: "\<forall>i \<in> set ?starts.
        \<exists>vs. model (map text_to_embed (iloc df i (i + BATCH_SIZE))) = Inr vs"
    by blast+
  from d show "db w' = db w @ map (\<lambda>b. Committed (batch_recipes model b)) (batches df)"
    by (simp add: print_def batches_def comp_def)
  from m show "\<forall>b \<in> set (batches df). \<exists>vs. model (map text_to_embed b) = Inr vs"
    by (simp add: batches_def)
qed




text \<open>
  Claim C2. The loop cuts the frame into contiguous batches in the order of the frame:
  their concatenation is the frame, every batch but the last has 1000 rows and the last
  has between 1 and 1000. A frame of 2500 rows gives three batches of 1000, 1000 and 500
  rows. A run that ends normally has committed one transaction per batch, in order.
\<close>

theorem loader_batches:
  "concat (batches df) = df
   \<and> map length (batches df)
       = replicate (length df div 1000) 1000
         @ (if length df mod 1000 = 0 then [] else [length df mod 1000])
   \<and> (\<forall>b \<in> set (butlast (batches df)). length b = 1000)
   \<and> (\<forall>b \<in> set (batches df). 0 < length b \<and> length b \<le> 1000)
   \<and> (length df = 2500 \<longrightarrow> map length (batches df) = [1000, 1000, 500])
   \<and> (create_embeddings_and_load model commit df w = (Inr (), w') \<longrightarrow>
        db w' = db w @ map (\<lambda>b. Committed (batch_recipes model b)) (batches df))
   \<and> (one_vector_per_text model \<and> length df = 2500
       \<and> create_embeddings_and_load model commit df w = (Inr (), w') \<longrightarrow>
        (\<exists>t1 t2 t3. db w' = db w @ [Committed t1, Committed t2, Committed t3]
           \<and> length t1 = 1000 \<and> length t2 = 1000 \<and> length t3 = 500))"
proof -
  have p1: "concat (batches df) = df" by (rule concat_batches)
  have p2: "map length (batches df)
       = replicate (length df div 1000) 1000
         @ (if length df mod 1000 = 0 then [] else [length df mod 1000])"
    using sizes_batches [of df] by (simp add: BATCH_SIZE_def)
  have p3: "\<forall>b \<in> set (butlast (batches df)). length b = 1000"
    using full_batches [of _ df] by (simp add: BATCH_SIZE_def)
  have p4: "\<forall>b \<in> set (batches df). 0 < length b \<and> length b \<le> 1000"
    using bounded_batches [of _ df] by (simp add: BATCH_SIZE_def)
  have p5: "map length (batches df) = [1000, 1000, 500]" if "length df = 2500"
    using that by (rule sizes_2500)
  have p6: "db w' = db w @ map (\<lambda>b. Committed (batch_recipes model b)) (batches df)"
    if "create_embeddings_and_load model commit df w = (Inr (), w')"
    using that by (rule loader_ok(1))
  have p7: "\<exists>t1 t2 t3. db w' = db w @ [Committed t1, Committed t2, Committed t3]
           \<and> length t1 = 1000 \<and> length t2 = 1000 \<and> length t3 = 500"
    if c: "one_vector_per_text model" and l: "length df = 2500"
      and run: "create_embeddings_and_load model commit df w = (Inr (), w')"
  proof -
    from sizes_2500 [OF l] obtain b1 b2 b3 where bs: "batches df = [b1, b2, b3]"
      and ls: "length b1 = 1000" "length b2 = 1000" "length b3 = 500"
      by (auto simp add: map_eq_Cons_conv)
    from loader_ok(2) [OF run] bs obtain v1 v2 v3 where
      "model (map text_to_embed b1) = Inr v1" "model (map text_to_embed b2) = Inr v2"
      "model (map text_to_embed b3) = Inr v3" by auto
    then have "length (batch_recipes model b1) = 1000" "length (batch_recipes model b2) = 1000"
      "length (batch_recipes model b3) = 500"
      using length_batch_recipes [OF c] ls by simp_all
    with loader_ok(1) [OF run] bs show ?thesis by simp
  qed
  from p1 p2 p3 p4 p5 p6 p7 show ?thesis by blast
qed

subsection \<open>Runs over 2500 rows\<close>

lemma zero_model_contract: "one_vector_per_text zero_model"
  by (auto simp add: one_vector_per_text_def zero_model_def)

lemma loader_succeeds:
  assumes "\<forall>texts. \<exists>vs. model texts = Inr vs" and "\<forall>h b. commit h b = None"
  shows "fst (create_embeddings_and_load model commit df w) = Inr ()"
proof -
  from load_batches_succeeds [OF assms] obtain w' where
    "load_batches model commit df (range_steps 0 (length df) BATCH_SIZE)
       (print (''Starting to embed and load '' @ str_nat (length df)
               @ '' recipes in batches of '' @ str_nat BATCH_SIZE @ ''...'') w) = (Inr (), w')"
    by blast
  then show ?thesis
    using BATCH_SIZE_pos by (simp add: create_embeddings_and_load_def py_range_def Let_def)
qed

lemma starts_2500: "range_steps 0 2500 1000 = [0, 1000, 2000]"
  by (simp add: range_steps.simps)

lemma length_many_rows: "length many_rows = 2500"
  by (simp add: many_rows_def)

lemma full_run:
  "create_embeddings_and_load zero_model always_commits many_rows empty_world
     = (Inr (), snd (create_embeddings_and_load zero_model always_commits many_rows empty_world))"
proof -
  have "fst (create_embeddings_and_load zero_model always_commits many_rows empty_world) = Inr ()"
    by (rule loader_succeeds) (simp_all add: zero_model_def always_commits_def)
  then show ?thesis by (metis prod.collapse)
qed



text \<open>The batches and the transactions of the frame of 2500 rows.\<close>

theorem loader_batches_witness:
  "length many_rows = 2500
   \<and> map length (batches many_rows) = [1000, 1000, 500]
   \<and> iloc many_rows 0 1000 \<in> set (butlast (batches many_rows))
   \<and> length (iloc many_rows 0 1000) = 1000
   \<and> iloc many_rows 2000 3000 \<in> set (batches many_rows)
   \<and> 0 < length (iloc many_rows 2000 3000) \<and> length (iloc many_rows 2000 3000) \<le> 1000
   \<and> one_vector_per_text zero_model
   \<and> create_embeddings_and_load zero_model always_commits many_rows empty_world
       = (Inr (), snd (create_embeddings_and_load zero_model always_commits many_rows empty_world))
   \<and> (\<exists>t1 t2 t3.
         db (snd (create_embeddings_and_load zero_model always_commits many_rows empty_world))
           = db empty_world @ [Committed t1, Committed t2, Committed t3]
         \<and> length t1 = 1000 \<and> length t2 = 1000 \<and> length t3 = 500)"
proof -
  let ?ok = "create_embeddings_and_load zero_model always_commits many_rows empty_world"
  note inst = loader_batches [of many_rows zero_model always_commits empty_world "snd ?ok"]
  have bs: "batches many_rows
      = [iloc many_rows 0 1000, iloc many_rows 1000 2000, iloc many_rows 2000 3000]"
    by (simp add: batches_def length_many_rows BATCH_SIZE_def starts_2500)
  have m1: "iloc many_rows 0 1000 \<in> set (butlast (batches many_rows))"
    and m2: "iloc many_rows 2000 3000 \<in> set (batches many_rows)"
    by (simp_all add: bs)
  from inst length_many_rows have s: "map length (batches many_rows) = [1000, 1000, 500]"
    by blast
  from inst m1 have l1: "length (iloc many_rows 0 1000) = 1000" by blast
  from inst m2 have l2: "0 < length (iloc many_rows 2000 3000)
      \<and> length (iloc many_rows 2000 3000) \<le> 1000" by blast
  from inst zero_model_contract length_many_rows full_run
  have t: "\<exists>t1 t2 t3. db (snd ?ok) = db empty_world @ [Committed t1, Committed t2, Committed t3]
         \<and> length t1 = 1000 \<and> length t2 = 1000 \<and> length t3 = 500"
    by blast
  from s m1 m2 l1 l2 t length_many_rows zero_model_contract full_run show ?thesis by blast
qed

section \<open>The handler of main\<close>







end
